theory Spec2Isabelle
  imports Complex_Main
begin

section \<open>Numeric conventions\<close>

text \<open>
  The detectors compute on C++ \<open>float\<close> and \<open>int\<close>. In this development a \<open>float\<close> is a
  real number: rounding, infinities and NaN are not modelled, so every statement below is
  about the exact-arithmetic reading of the code. An \<open>int\<close> is a mathematical integer: the
  integer arithmetic of the detectors is on sample, frame and lag counts bounded by the
  buffer length, where nothing wraps around, and a float converted by \<open>static_cast<int>\<close>
  is taken to be in the range of \<open>int\<close>. A buffer is the list of its samples, a pointer
  into it the list from that position on, and \<open>numSamples\<close> is the count the caller passes.

  \<open>juce::dsp::FFT\<close> is a library outside the repository. The transform is therefore a
  parameter \<open>fft\<close> of every function that calls it: \<open>fft.perform (windowed, fftData, false)\<close>
  is read as \<open>fftData = fft windowed\<close>, the forward transform of the windowed frame. The
  theorems hold for every such function; \<open>dft\<close> below is the discrete Fourier transform
  the library computes, for the statements about a particular signal.
\<close>

type_synonym fft_fun = "real list \<Rightarrow> complex list"

definition dft :: fft_fun where
  "dft xs = map (\<lambda>k. \<Sum>j<length xs. complex_of_real (xs ! j) *
               cis (- (2 * pi * real j * real k / real (length xs)))) [0..<length xs]"

text \<open>\<open>static_cast<int>\<close> of a float truncates towards zero.\<close>

definition static_cast_int :: "real \<Rightarrow> int" where
  "static_cast_int x = (if 0 \<le> x then \<lfloor>x\<rfloor> else \<lceil>x\<rceil>)"

text \<open>The C++ remainder \<open>a % b\<close> truncates towards zero: it has the sign of \<open>a\<close>.\<close>

definition c_rem :: "int \<Rightarrow> int \<Rightarrow> int" where
  "c_rem a b = sgn a * (\<bar>a\<bar> mod \<bar>b\<bar>)"

text \<open>\<open>std::fmod x y\<close> is \<open>x - n * y\<close> with \<open>n\<close> the quotient truncated towards zero.\<close>

definition fmod :: "real \<Rightarrow> real \<Rightarrow> real" where
  "fmod x y = x - of_int (static_cast_int (x / y)) * y"

text \<open>\<open>juce::jlimit\<close> and \<open>juce::jmin\<close>, as the JUCE headers define them.\<close>

definition jlimit :: "real \<Rightarrow> real \<Rightarrow> real \<Rightarrow> real" where
  "jlimit lowerLimit upperLimit valueToConstrain =
     (if valueToConstrain < lowerLimit then lowerLimit
      else if upperLimit < valueToConstrain then upperLimit
      else valueToConstrain)"

definition jmin :: "int \<Rightarrow> int \<Rightarrow> int" where
  "jmin a b = (if b < a then b else a)"

section \<open>BPMDetector\<close>

text \<open>The object's two fields, with the defaults of the header.\<close>

record BPMDetector =
  sampleRate :: real
  confidence :: real

definition BPMDetector_default :: BPMDetector where
  "BPMDetector_default = \<lparr>sampleRate = 44100, confidence = 0.5\<rparr>"

definition prepare :: "real \<Rightarrow> BPMDetector \<Rightarrow> BPMDetector" where
  "prepare sr d = d\<lparr>sampleRate := sr\<rparr>"

definition getConfidence :: "BPMDetector \<Rightarrow> real" where
  "getConfidence d = confidence d"

definition hopSize :: nat where "hopSize = 512"
definition fftSize :: nat where "fftSize = 2048"

text \<open>
  \<open>applyHannWindow data size\<close>: \<open>data\<close> is a pointer into the buffer, here the list of the
  samples from that position on.
\<close>

definition applyHannWindow :: "real list \<Rightarrow> nat \<Rightarrow> real list" where
  "applyHannWindow data size' =
     map (\<lambda>i. let window = 0.5 * (1 - cos (2 * pi * real i / real (size' - 1)))
              in data ! i * window) [0..<size']"

text \<open>
  The two inner loops of the frame loop of \<open>calculateOnsetStrength\<close>: the magnitude of the
  first \<open>fftSize / 2\<close> bins, and the sum of the positive differences to the previous
  spectrum.
\<close>

definition magnitudeSpectrum :: "complex list \<Rightarrow> real list" where
  "magnitudeSpectrum fftData =
     map (\<lambda>i. let real' = Re (fftData ! i); imag = Im (fftData ! i)
              in sqrt (real' * real' + imag * imag)) [0..<fftSize div 2]"

definition spectralFlux :: "real list \<Rightarrow> real list \<Rightarrow> real" where
  "spectralFlux spectrum prevSpectrum =
     foldl (\<lambda>flux i. let diff = spectrum ! i - prevSpectrum ! i
                     in if diff > 0 then flux + diff else flux) 0 [0..<fftSize div 2]"

text \<open>One iteration of the frame loop: the state is \<open>(onsetStrength, prevSpectrum)\<close>.\<close>

definition onsetFrame :: "fft_fun \<Rightarrow> real list \<Rightarrow> real list \<times> real list \<Rightarrow> nat \<Rightarrow>
    real list \<times> real list" where
  "onsetFrame fft audioData s frame =
     (let startSample = frame * hopSize;
          windowedData = applyHannWindow (drop startSample audioData) fftSize;
          fftData = fft windowedData;
          spectrum = magnitudeSpectrum fftData;
          flux = spectralFlux spectrum (snd s)
      in (fst s @ [flux], spectrum))"

text \<open>
  \<open>numFrames\<close>: the function is reached with \<open>numSamples \<ge> fftSize\<close> only, where the
  truncating division of C++ and \<open>div\<close> agree; below that both give no frame.
\<close>

definition calculateOnsetStrength :: "fft_fun \<Rightarrow> real list \<Rightarrow> int \<Rightarrow> real list" where
  "calculateOnsetStrength fft audioData numSamples =
     (let numFrames = (numSamples - int fftSize) div int hopSize
      in fst (foldl (onsetFrame fft audioData) ([], replicate (fftSize div 2) 0)
                [0..<nat numFrames]))"

text \<open>
  \<open>autocorrelate\<close>: the loop bound \<open>signal.size() - lag\<close> is computed in \<open>size_t\<close>. For
  \<open>0 \<le> lag \<le> size\<close> it is the difference below, and every index read is inside the
  vector; the lag search calls it with such lags only (lemma \<open>searched_lags_in_range\<close>).
\<close>

definition autocorrelate :: "real list \<Rightarrow> int \<Rightarrow> real" where
  "autocorrelate signal lag =
     (let r = foldl (\<lambda>(sum', count) i. (sum' + signal ! i * signal ! nat (int i + lag), count + 1))
                (0, 0::int) [0..<nat (int (length signal) - lag)]
      in if snd r > 0 then fst r / real_of_int (snd r) else 0)"

text \<open>
  The lag search of \<open>estimateTempoFromOnsets\<close>: the state of the loop is
  \<open>(maxCorr, bestLag)\<close>, and \<open>bestLagSearch\<close> is the loop with its bounds.
\<close>

definition lagStep :: "real list \<Rightarrow> real \<times> int \<Rightarrow> int \<Rightarrow> real \<times> int" where
  "lagStep onsetStrength s lag =
     (let corr = autocorrelate onsetStrength lag
      in if corr > fst s then (corr, lag) else s)"

definition bestLagSearch :: "real \<Rightarrow> real list \<Rightarrow> real \<times> int" where
  "bestLagSearch sr onsetStrength =
     (let maxLag = int (length onsetStrength div 2);
          framesPerSecond = sr / real hopSize;
          minLag = static_cast_int (framesPerSecond * 60 / 240);
          maxLagRange = jmin (static_cast_int (framesPerSecond * 60 / 40)) maxLag
      in foldl (lagStep onsetStrength) (0, 0) [minLag..maxLagRange - 1])"

definition estimateTempoFromOnsets :: "real \<Rightarrow> real list \<Rightarrow> real" where
  "estimateTempoFromOnsets sr onsetStrength =
     (if length onsetStrength < 10 then 0
      else let framesPerSecond = sr / real hopSize;
               bestLag = snd (bestLagSearch sr onsetStrength)
           in if bestLag = 0 then 0
              else let beatsPerFrame = 1 / real_of_int bestLag;
                       beatsPerSecond = beatsPerFrame * framesPerSecond;
                       bpm = beatsPerSecond * 60
                   in bpm)"

text \<open>
  \<open>detectBPM\<close> returns the tempo and writes \<open>confidence\<close> on some paths only: the result is
  the returned value together with the object after the call.
\<close>

definition detectBPM :: "fft_fun \<Rightarrow> BPMDetector \<Rightarrow> real list \<Rightarrow> int \<Rightarrow> real \<times> BPMDetector" where
  "detectBPM fft d audioData numSamples =
     (if numSamples < int fftSize then (0, d)
      else let onsetStrength = calculateOnsetStrength fft audioData numSamples
           in if onsetStrength = [] then (0, d)
              else let bpm = estimateTempoFromOnsets (sampleRate d) onsetStrength
                   in if bpm < 40 \<or> bpm > 240 then (120, d\<lparr>confidence := 0.3\<rparr>)
                      else let meanOnset = foldl (+) 0 onsetStrength / real (length onsetStrength);
                               variance = foldl (\<lambda>v val. v + (val - meanOnset) * (val - meanOnset))
                                            0 onsetStrength / real (length onsetStrength)
                           in (bpm, d\<lparr>confidence := jlimit 0 1 (variance * 10)\<rparr>))"

section \<open>KeyDetector\<close>

text \<open>
  The class has the sample rate as its only field. Its \<open>sampleRate\<close>, \<open>prepare\<close>,
  \<open>hopSize\<close> and \<open>fftSize\<close> carry the prefix \<open>key\<close> here, since \<open>BPMDetector\<close> has members
  of the same names.
\<close>

record KeyDetector =
  keySampleRate :: real

definition KeyDetector_default :: KeyDetector where
  "KeyDetector_default = \<lparr>keySampleRate = 44100\<rparr>"

definition prepareKey :: "real \<Rightarrow> KeyDetector \<Rightarrow> KeyDetector" where
  "prepareKey sr d = d\<lparr>keySampleRate := sr\<rparr>"

definition majorProfile :: "real list" where
  "majorProfile = [6.35, 2.23, 3.48, 2.33, 4.38, 4.09, 2.52, 5.19, 2.39, 3.66, 2.29, 2.88]"

definition minorProfile :: "real list" where
  "minorProfile = [6.33, 2.68, 3.52, 5.38, 2.60, 3.53, 2.54, 4.75, 3.98, 2.69, 3.34, 3.17]"

definition pitchClasses :: "string list" where
  "pitchClasses = [''C'', ''C#'', ''D'', ''D#'', ''E'', ''F'', ''F#'', ''G'', ''G#'', ''A'', ''A#'', ''B'']"

definition keyHopSize :: nat where "keyHopSize = 512"
definition keyFftSize :: nat where "keyFftSize = 4096"

definition frequencyToPitchClass :: "real \<Rightarrow> real" where
  "frequencyToPitchClass frequency =
     (let midiNote = 69 + 12 * log 2 (frequency / 440)
      in fmod midiNote 12)"

text \<open>One iteration of the bin loop of \<open>calculateChromagram\<close>, on the chromagram so far.\<close>

definition chromaBin :: "real \<Rightarrow> complex list \<Rightarrow> real list \<Rightarrow> nat \<Rightarrow> real list" where
  "chromaBin sr fftData chromagram bin =
     (let frequency = real bin * sr / real keyFftSize
      in if frequency < 27.5 \<or> frequency > 4186 then chromagram
         else let real' = Re (fftData ! bin);
                  imag = Im (fftData ! bin);
                  magnitude = sqrt (real' * real' + imag * imag);
                  pitchClass = frequencyToPitchClass frequency;
                  pitchClassIndex = nat (c_rem (static_cast_int pitchClass) 12)
              in chromagram[pitchClassIndex := chromagram ! pitchClassIndex + magnitude])"

definition chromaFrame :: "fft_fun \<Rightarrow> real \<Rightarrow> real list \<Rightarrow> real list \<Rightarrow> nat \<Rightarrow> real list" where
  "chromaFrame fft sr audioData chromagram frame =
     (let startSample = frame * keyHopSize;
          windowed = map (\<lambda>i. let window = 0.5 * (1 - cos (2 * pi * real i / real (keyFftSize - 1)))
                              in audioData ! (startSample + i) * window) [0..<keyFftSize];
          fftData = fft windowed
      in foldl (chromaBin sr fftData) chromagram [1..<keyFftSize div 2])"

definition calculateChromagram :: "fft_fun \<Rightarrow> real \<Rightarrow> real list \<Rightarrow> int \<Rightarrow> real list" where
  "calculateChromagram fft sr audioData numSamples =
     (let numFrames = (numSamples - int keyFftSize) div int keyHopSize
      in foldl (chromaFrame fft sr audioData) (replicate 12 0) [0..<nat numFrames])"

definition correlation :: "real list \<Rightarrow> real list \<Rightarrow> real" where
  "correlation x y =
     (let m = foldl (\<lambda>(meanX, meanY) i. (meanX + x ! i, meanY + y ! i)) (0, 0) [0..<12];
          meanX = fst m / 12;
          meanY = snd m / 12;
          s = foldl (\<lambda>(stdX, stdY, covariance) i.
                 let dx = x ! i - meanX; dy = y ! i - meanY
                 in (stdX + dx * dx, stdY + dy * dy, covariance + dx * dy)) (0, 0, 0) [0..<12];
          stdX = sqrt (fst s);
          stdY = sqrt (fst (snd s));
          covariance = snd (snd s)
      in if stdX < 1 / 10 ^ 10 \<or> stdY < 1 / 10 ^ 10 then 0
         else covariance / (stdX * stdY))"

text \<open>
  The inner loop of \<open>findBestKey\<close> that fills \<open>rotatedMajor\<close> and \<open>rotatedMinor\<close>:
  entry \<open>i\<close> of the rotated profile is entry \<open>(i + root) % 12\<close> of the profile.
\<close>

definition rotateProfile :: "real list \<Rightarrow> nat \<Rightarrow> real list" where
  "rotateProfile profile root' = map (\<lambda>i. profile ! ((i + root') mod 12)) [0..<12]"

text \<open>One iteration of the root loop: the state is \<open>(maxCorrelation, bestKey, bestMode)\<close>.\<close>

definition keyStep :: "real list \<Rightarrow> real \<times> string \<times> string \<Rightarrow> nat \<Rightarrow> real \<times> string \<times> string" where
  "keyStep pitchClassDistribution s root' =
     (let rotatedMajor = rotateProfile majorProfile root';
          rotatedMinor = rotateProfile minorProfile root';
          majorCorr = correlation pitchClassDistribution rotatedMajor;
          minorCorr = correlation pitchClassDistribution rotatedMinor;
          s1 = (if majorCorr > fst s then (majorCorr, pitchClasses ! root', ''major'') else s);
          s2 = (if minorCorr > fst s1 then (minorCorr, pitchClasses ! root', ''minor'') else s1)
      in s2)"

definition findBestKey :: "real list \<Rightarrow> string \<times> string \<times> real" where
  "findBestKey pitchClassDistribution =
     (let s = foldl (keyStep pitchClassDistribution) (-1, ''C'', ''major'') [0..<12];
          maxCorrelation = fst s;
          confidence' = (maxCorrelation + 1) / 2
      in (fst (snd s), snd (snd s), jlimit 0 1 confidence'))"

text \<open>The normalisation step of \<open>detectKey\<close>, on the accumulated chromagram.\<close>

definition normalizeChromagram :: "real list \<Rightarrow> real list" where
  "normalizeChromagram chromagram =
     (let sum' = foldl (+) 0 chromagram
      in if sum' > 0 then map (\<lambda>val. val / sum') chromagram else chromagram)"

definition detectKey :: "fft_fun \<Rightarrow> KeyDetector \<Rightarrow> real list \<Rightarrow> int \<Rightarrow> string \<times> string \<times> real" where
  "detectKey fft d audioData numSamples =
     (if numSamples < int keyFftSize then (''C'', ''major'', 0)
      else let chromagram = calculateChromagram fft (keySampleRate d) audioData numSamples
           in findBestKey (normalizeChromagram chromagram))"

section \<open>Notions of the specification\<close>

text \<open>
  The quantities the specification names, written as sums rather than as the loops of the
  code. \<open>stdDev\<close> is what the code calls \<open>stdX\<close> and \<open>stdY\<close>: the square root of the sum
  of squared deviations from the mean, not divided by the number of elements.
\<close>

definition mean12 :: "real list \<Rightarrow> real" where
  "mean12 x = (\<Sum>i<12. x ! i) / 12"

definition stdDev :: "real list \<Rightarrow> real" where
  "stdDev x = sqrt (\<Sum>i<12. (x ! i - mean12 x) * (x ! i - mean12 x))"

definition covariance :: "real list \<Rightarrow> real list \<Rightarrow> real" where
  "covariance x y = (\<Sum>i<12. (x ! i - mean12 x) * (y ! i - mean12 y))"

text \<open>The invariant of the chromagram loops: twelve bins, none negative.\<close>

definition chroma_ok :: "real list \<Rightarrow> bool" where
  "chroma_ok c = (length c = 12 \<and> (\<forall>v\<in>set c. 0 \<le> v))"

text \<open>
  The 24 candidates in the order in which \<open>findBestKey\<close> evaluates them: roots ascending,
  at each root the major profile before the minor one.
\<close>

definition candidates :: "(nat \<times> string) list" where
  "candidates = concat (map (\<lambda>root'. [(root', ''major''), (root', ''minor'')]) [0..<12])"

definition candidateCorrelation :: "real list \<Rightarrow> nat \<times> string \<Rightarrow> real" where
  "candidateCorrelation p c =
     correlation p (rotateProfile (if snd c = ''major'' then majorProfile else minorProfile) (fst c))"

text \<open>A scan that keeps the running best and replaces it on strict increase only.\<close>

definition strictScan :: "('a \<Rightarrow> real) \<Rightarrow> real \<times> 'a \<Rightarrow> 'a \<Rightarrow> real \<times> 'a" where
  "strictScan f s x = (if f x > fst s then (f x, x) else s)"

text \<open>A normalised chromagram with all of its energy in pitch class 9 (A).\<close>

definition chromagramA :: "real list" where
  "chromagramA = (replicate 12 0)[9 := 1]"

text \<open>
  The population variance of a sequence (the mean of the squared deviations from the
  mean) and the clamp of a value to an interval, as the specification words them.
\<close>

definition populationVariance :: "real list \<Rightarrow> real" where
  "populationVariance xs =
     (\<Sum>v\<leftarrow>xs. (v - sum_list xs / real (length xs)) ^ 2) / real (length xs)"

definition clamp :: "real \<Rightarrow> real \<Rightarrow> real \<Rightarrow> real" where
  "clamp v lo hi = max lo (min hi v)"

text \<open>
  A history of \<open>detectBPM\<close> calls on one detector object: each call is a buffer with its
  count, and the object after a call is the object the next call sees.
\<close>

definition runCalls :: "fft_fun \<Rightarrow> BPMDetector \<Rightarrow> (real list \<times> int) list \<Rightarrow> BPMDetector" where
  "runCalls fft d calls = foldl (\<lambda>d' (audioData, numSamples). snd (detectBPM fft d' audioData numSamples)) d calls"

text \<open>
  A click: 7168 samples (ten analysis frames), all zero but a single unit impulse at
  sample 1536.
\<close>

definition clickSignal :: "real list" where
  "clickSignal = (replicate 7168 0)[1536 := 1]"

text \<open>The Hann coefficients of the 2048-point window, as \<open>applyHannWindow\<close> computes them.\<close>

definition hann :: "nat \<Rightarrow> real" where
  "hann i = 0.5 * (1 - cos (2 * pi * real i / real (fftSize - 1)))"

text \<open>The magnitude spectrum of one analysis frame, as the frame loop computes it.\<close>

definition frameSpectrum :: "fft_fun \<Rightarrow> real list \<Rightarrow> nat \<Rightarrow> real list" where
  "frameSpectrum fft audioData frame =
     magnitudeSpectrum (fft (applyHannWindow (drop (frame * hopSize) audioData) fftSize))"

text \<open>A click for the key detector: 4608 samples (one analysis frame), a unit impulse at 2048.\<close>

definition keyClick :: "real list" where
  "keyClick = (replicate 4608 0)[2048 := 1]"

text \<open>What a frequency bin adds to the chromagram total: its magnitude, if it is in range.\<close>

definition binEnergy :: "real \<Rightarrow> complex list \<Rightarrow> nat \<Rightarrow> real" where
  "binEnergy sr fftData bin =
     (if real bin * sr / real keyFftSize < 27.5 \<or> real bin * sr / real keyFftSize > 4186 then 0
      else sqrt (Re (fftData ! bin) * Re (fftData ! bin) + Im (fftData ! bin) * Im (fftData ! bin)))"

section \<open>Short buffers\<close>

text \<open>
  C5. For every buffer with a count below the respective FFT size, \<open>detectBPM\<close> (FFT size
  2048) returns 0 and \<open>detectKey\<close> (FFT size 4096) returns exactly \<open>("C", "major", 0)\<close>.
\<close>

theorem short_buffer_sentinels:
  "(numSamples < 2048 \<longrightarrow> fst (detectBPM fft d audioData numSamples) = 0) \<and>
   (numSamples < 4096 \<longrightarrow> detectKey fft k audioData numSamples = (''C'', ''major'', 0))"
  by (simp add: detectBPM_def detectKey_def fftSize_def keyFftSize_def)

theorem short_buffer_sentinels_witness:
  "(2047::int) < 2048 \<and> fst (detectBPM dft BPMDetector_default (replicate 2047 1) 2047) = 0 \<and>
   (2047::int) < 4096 \<and>
   detectKey dft KeyDetector_default (replicate 2047 1) 2047 = (''C'', ''major'', 0)"
  using short_buffer_sentinels [of 2047 dft BPMDetector_default "replicate 2047 1" KeyDetector_default]
  by simp

section \<open>Loops as sums\<close>

lemma foldl_pair_sum:
  "foldl (\<lambda>(a, b) i. (a + f i, b + g i)) (a0, b0) [0..<n] =
     (a0 + (\<Sum>i<n. f i), b0 + (\<Sum>i<n. g i :: real))"
  by (induction n) (simp_all add: add.assoc)

lemma foldl_triple_sum:
  "foldl (\<lambda>(a, b, c) i. (a + p i * p i, b + q i * q i, c + p i * q i))
      (a0, b0, c0) [0..<n] =
     (a0 + (\<Sum>i<n. p i * p i), b0 + (\<Sum>i<n. q i * q i), c0 + (\<Sum>i<n. p i * q i :: real))"
  by (induction n) (simp_all add: add.assoc)

lemma sum12:
  "(\<Sum>i<12. f i) =
     (f 0 + f 1 + f 2 + f 3 + f 4 + f 5 + f 6 + f 7 + f 8 + f 9 + f 10 + f (11::nat) :: real)"
  by (simp add: lessThan_nat_numeral lessThan_Suc add.assoc add.commute add.left_commute)

lemma upt12: "[0..<12] = [0, 1, 2, 3, 4, 5, 6, 7, 8, 9, 10, 11]"
  by code_simp

section \<open>The correlation\<close>

lemma correlation_eq:
  "correlation x y =
     (if stdDev x < 1 / 10 ^ 10 \<or> stdDev y < 1 / 10 ^ 10 then 0
      else covariance x y / (stdDev x * stdDev y))"
proof -
  have m: "foldl (\<lambda>(meanX, meanY) i. (meanX + x ! i, meanY + y ! i)) (0, 0) [0..<12] =
      (12 * mean12 x, 12 * mean12 y)"
    by (simp add: foldl_pair_sum mean12_def)
  have s: "foldl (\<lambda>(stdX, stdY, covariance) i.
                 (stdX + (x ! i - mean12 x) * (x ! i - mean12 x),
                  stdY + (y ! i - mean12 y) * (y ! i - mean12 y),
                  covariance + (x ! i - mean12 x) * (y ! i - mean12 y))) (0, 0, 0) [0..<12] =
      ((\<Sum>i<12. (x ! i - mean12 x) * (x ! i - mean12 x)),
       (\<Sum>i<12. (y ! i - mean12 y) * (y ! i - mean12 y)),
       (\<Sum>i<12. (x ! i - mean12 x) * (y ! i - mean12 y)))"
    using foldl_triple_sum [of "\<lambda>i. x ! i - mean12 x" "\<lambda>i. y ! i - mean12 y" 0 0 0 12]
    by simp
  show ?thesis
    unfolding correlation_def Let_def m
    by (simp only: s fst_conv snd_conv stdDev_def covariance_def nonzero_mult_div_cancel_left)
qed

lemma mean12_major: "mean12 majorProfile = 3.4825"
  by (simp add: mean12_def sum12 majorProfile_def)

lemma mean12_minor: "mean12 minorProfile = 44.51 / 12"
  by (simp add: mean12_def sum12 minorProfile_def)

lemma stdDev_major: "stdDev majorProfile = sqrt 19.146225"
  by (simp add: stdDev_def mean12_major sum12) (simp add: majorProfile_def)

lemma stdDev_zero: "stdDev (replicate 12 0) = 0"
  by (simp add: stdDev_def mean12_def sum12)

text \<open>
  C8. For every pair of 12-element vectors, \<open>correlation\<close> returns
  \<open>covariance / (stdX * stdY)\<close>, except that it returns exactly 0 whenever either standard
  deviation is below \<open>1e-10\<close>; so whenever the division is reached, the divisor is positive.
\<close>

theorem correlation_guarded:
  "length x = 12 \<Longrightarrow> length y = 12 \<Longrightarrow>
   correlation x y =
     (if stdDev x < 1 / 10 ^ 10 \<or> stdDev y < 1 / 10 ^ 10 then 0
      else covariance x y / (stdDev x * stdDev y)) \<and>
   (stdDev x < 1 / 10 ^ 10 \<or> stdDev y < 1 / 10 ^ 10 \<or> 0 < stdDev x * stdDev y)"
proof (intro conjI)
  show "correlation x y =
     (if stdDev x < 1 / 10 ^ 10 \<or> stdDev y < 1 / 10 ^ 10 then 0
      else covariance x y / (stdDev x * stdDev y))"
    by (rule correlation_eq)
  show "stdDev x < 1 / 10 ^ 10 \<or> stdDev y < 1 / 10 ^ 10 \<or> 0 < stdDev x * stdDev y"
  proof (cases "stdDev x < 1 / 10 ^ 10 \<or> stdDev y < 1 / 10 ^ 10")
    case True
    then show ?thesis by blast
  next
    case False
    then have "0 < stdDev x" "0 < stdDev y" by simp_all
    then show ?thesis by simp
  qed
qed

theorem correlation_guarded_witness:
  "length (replicate 12 (0::real)) = 12 \<and> length majorProfile = 12 \<and>
   correlation (replicate 12 0) majorProfile = 0 \<and>
   correlation majorProfile majorProfile = 1"
proof -
  have l: "length (replicate 12 (0::real)) = 12" "length majorProfile = 12"
    by (simp_all add: majorProfile_def)
  have big: "\<not> sqrt 19.146225 < 1 / 10 ^ 10"
  proof -
    have "(1::real) \<le> sqrt 19.146225" by (rule real_le_rsqrt) simp
    moreover have "(1 / 10 ^ 10 :: real) < 1" by simp
    ultimately show ?thesis by linarith
  qed
  have "covariance majorProfile majorProfile = 19.146225"
    by (simp add: covariance_def mean12_major sum12) (simp add: majorProfile_def)
  then have "correlation majorProfile majorProfile = 1"
    using correlation_guarded [OF l(2) l(2)] big by (simp add: stdDev_major)
  moreover have "correlation (replicate 12 0) majorProfile = 0"
    using correlation_guarded [OF l] by (simp add: stdDev_zero)
  ultimately show ?thesis using l by simp
qed

section \<open>An all-zero chromagram\<close>

lemma foldl_plus_sum_list: "foldl (+) a xs = a + sum_list (xs :: real list)"
  by (induction xs arbitrary: a) (simp_all add: add.assoc)

lemma correlation_zero_left: "correlation (replicate 12 0) y = 0"
  by (simp add: correlation_eq stdDev_zero)

lemma keyStep_zero_first:
  "keyStep (replicate 12 0) (-1, k, m) 0 = (0, ''C'', ''major'')"
  by (simp add: keyStep_def correlation_zero_left pitchClasses_def)

lemma keyStep_zero_later:
  "keyStep (replicate 12 0) (0, k, m) r = (0, k, m)"
  by (simp add: keyStep_def correlation_zero_left)

lemma findBestKey_zero: "findBestKey (replicate 12 0) = (''C'', ''major'', 0.5)"
  by (simp add: findBestKey_def upt12 keyStep_zero_first keyStep_zero_later jlimit_def)

lemma normalizeChromagram_zero: "normalizeChromagram (replicate 12 0) = replicate 12 0"
  by (simp add: normalizeChromagram_def foldl_plus_sum_list sum_list_replicate)

section \<open>The chromagram and its normalisation\<close>

lemma log2_sixteenth: "log 2 (1 / 16) = - 4"
proof -
  have "log 2 (2 ^ 4) = 4" by (subst log_nat_power) simp_all
  then have "log 2 16 = 4" by simp
  then show ?thesis by (simp add: log_divide)
qed

lemma midiNote_lower:
  assumes "27.5 \<le> f"
  shows "21 \<le> 69 + 12 * log 2 (f / 440)"
proof -
  have "log 2 (1 / 16) \<le> log 2 (f / 440)"
    using assms by (subst log_le_cancel_iff) simp_all
  then show ?thesis by (simp add: log2_sixteenth)
qed

lemma fmod_12_range:
  assumes "0 \<le> x"
  shows "0 \<le> fmod x 12 \<and> fmod x 12 < 12"
proof -
  have eq: "fmod x 12 = x - of_int \<lfloor>x / 12\<rfloor> * 12"
    using assms by (simp add: fmod_def static_cast_int_def)
  have "of_int \<lfloor>x / 12\<rfloor> \<le> x / 12" "x / 12 < of_int \<lfloor>x / 12\<rfloor> + 1"
    by linarith+
  then show ?thesis unfolding eq by (simp add: field_simps)
qed

text \<open>
  The index written by \<open>chromagram[pitchClassIndex] += magnitude\<close> is within the array:
  a bin that is not skipped has a frequency of at least 27.5 Hz, hence a MIDI note of at
  least 21.
\<close>

lemma pitchClassIndex_range:
  assumes "27.5 \<le> f"
  shows "0 \<le> c_rem (static_cast_int (frequencyToPitchClass f)) 12 \<and>
         c_rem (static_cast_int (frequencyToPitchClass f)) 12 < 12"
proof -
  have "0 \<le> 69 + 12 * log 2 (f / 440)" using midiNote_lower [OF assms] by linarith
  then have r: "0 \<le> frequencyToPitchClass f" "frequencyToPitchClass f < 12"
    using fmod_12_range by (simp_all add: frequencyToPitchClass_def)
  then have "0 \<le> static_cast_int (frequencyToPitchClass f)"
    "static_cast_int (frequencyToPitchClass f) < 12"
    by (simp_all add: static_cast_int_def floor_less_iff)
  then show ?thesis by (simp add: c_rem_def sgn_if)
qed

lemma chromaBin_ok: "chroma_ok c \<Longrightarrow> chroma_ok (chromaBin sr fftData c bin)"
proof -
  assume ok: "chroma_ok c"
  have "\<forall>v\<in>set (c[i := c ! i + sqrt (a * a + b * b)]). 0 \<le> v" for i a b
  proof (cases "i < length c")
    case True
    then have "0 \<le> c ! i" using ok by (simp add: chroma_ok_def)
    then have "0 \<le> c ! i + sqrt (a * a + b * b)" by simp
    then show ?thesis
      using ok by (auto simp: chroma_ok_def dest!: set_update_subset_insert [THEN subsetD])
  next
    case False
    then have "c[i := c ! i + sqrt (a * a + b * b)] = c" by (intro list_update_beyond) simp
    then show ?thesis using ok by (simp add: chroma_ok_def)
  qed
  then show ?thesis using ok by (simp add: chromaBin_def chroma_ok_def Let_def)
qed

lemma foldl_chromaBin_ok: "chroma_ok c \<Longrightarrow> chroma_ok (foldl (chromaBin sr fftData) c bins)"
  by (induction bins arbitrary: c) (simp_all add: chromaBin_ok)

lemma chromaFrame_ok: "chroma_ok c \<Longrightarrow> chroma_ok (chromaFrame fft sr audioData c frame)"
  by (simp add: chromaFrame_def Let_def foldl_chromaBin_ok)

lemma foldl_chromaFrame_ok:
  "chroma_ok c \<Longrightarrow> chroma_ok (foldl (chromaFrame fft sr audioData) c frames)"
  by (induction frames arbitrary: c) (simp_all add: chromaFrame_ok)

lemma calculateChromagram_ok: "chroma_ok (calculateChromagram fft sr audioData numSamples)"
proof -
  have "chroma_ok (replicate 12 0)" by (simp add: chroma_ok_def)
  then show ?thesis
    unfolding calculateChromagram_def Let_def by (rule foldl_chromaFrame_ok)
qed

lemma sum_list_divide: "sum_list (map (\<lambda>val. val / s) xs) = sum_list xs / (s :: real)"
  by (induction xs) (simp_all add: add_divide_distrib)

lemma normalizeChromagram_eq:
  "normalizeChromagram c = (if 0 < sum_list c then map (\<lambda>val. val / sum_list c) c else c)"
  by (simp add: normalizeChromagram_def foldl_plus_sum_list)

lemma nonneg_sum_zero_all_zero:
  assumes "\<forall>v\<in>set c. 0 \<le> (v :: real)" "sum_list c = 0"
  shows "c = replicate (length c) 0"
proof -
  have "\<forall>x\<in>set c. x = 0"
    using assms sum_list_nonneg_eq_0_iff [of c] by simp
  then show ?thesis by (simp add: list_eq_iff_nth_eq)
qed

section \<open>Scans that update on strict increase\<close>

lemma strictScan_foldl:
  "foldl (strictScan f) (m0, c0) xs = (m, c) \<Longrightarrow>
     (m = m0 \<and> c = c0 \<and> (\<forall>x\<in>set xs. f x \<le> m0)) \<or>
     (\<exists>i<length xs. c = xs ! i \<and> m = f (xs ! i) \<and> m0 < m \<and>
        (\<forall>j<length xs. f (xs ! j) \<le> m) \<and> (\<forall>j<i. f (xs ! j) < m))"
proof (induction xs arbitrary: m c rule: rev_induct)
  case Nil
  then show ?case by simp
next
  case (snoc x xs)
  obtain m' c' where s: "foldl (strictScan f) (m0, c0) xs = (m', c')"
    by (cases "foldl (strictScan f) (m0, c0) xs")
  note ih = snoc.IH [OF s]
  have step: "strictScan f (m', c') x = (m, c)"
    using snoc.prems s by simp
  have le: "\<forall>j<length xs. f (xs ! j) \<le> m'" and m0: "m0 \<le> m'"
    using ih by (auto simp: all_set_conv_all_nth)
  show ?case
  proof (cases "f x > m'")
    case True
    then have mc: "m = f x" "c = x"
      using step by (auto simp: strictScan_def)
    have "\<forall>j<length (xs @ [x]). f ((xs @ [x]) ! j) \<le> m"
      using le True mc by (auto simp: nth_append less_Suc_eq)
    moreover have "\<forall>j<length xs. f ((xs @ [x]) ! j) < m"
      using le True mc by (auto simp: nth_append)
    ultimately have "length xs < length (xs @ [x]) \<and> c = (xs @ [x]) ! length xs \<and>
        m = f ((xs @ [x]) ! length xs) \<and> m0 < m \<and>
        (\<forall>j<length (xs @ [x]). f ((xs @ [x]) ! j) \<le> m) \<and>
        (\<forall>j<length xs. f ((xs @ [x]) ! j) < m)"
      using mc m0 True by simp
    then show ?thesis by blast
  next
    case False
    then have mc: "m = m'" "c = c'"
      using step by (auto simp: strictScan_def)
    from ih show ?thesis
    proof
      assume "m' = m0 \<and> c' = c0 \<and> (\<forall>x\<in>set xs. f x \<le> m0)"
      then show ?thesis using mc False by auto
    next
      assume "\<exists>i<length xs. c' = xs ! i \<and> m' = f (xs ! i) \<and> m0 < m' \<and>
        (\<forall>j<length xs. f (xs ! j) \<le> m') \<and> (\<forall>j<i. f (xs ! j) < m')"
      then obtain i where i: "i < length xs" "c' = xs ! i" "m' = f (xs ! i)" "m0 < m'"
        "\<forall>j<length xs. f (xs ! j) \<le> m'" "\<forall>j<i. f (xs ! j) < m'"
        by blast
      have "i < length (xs @ [x]) \<and> c = (xs @ [x]) ! i \<and> m = f ((xs @ [x]) ! i) \<and> m0 < m \<and>
        (\<forall>j<length (xs @ [x]). f ((xs @ [x]) ! j) \<le> m) \<and> (\<forall>j<i. f ((xs @ [x]) ! j) < m)"
        using i mc False by (auto simp: nth_append less_Suc_eq)
      then show ?thesis by blast
    qed
  qed
qed

section \<open>The correlation is at least -1\<close>

lemma cauchy_schwarz_sum:
  fixes a b :: "nat \<Rightarrow> real"
  shows "(\<Sum>i<n. a i * b i) * (\<Sum>i<n. a i * b i) \<le> (\<Sum>i<n. a i * a i) * (\<Sum>i<n. b i * b i)"
proof -
  define A where "A = (\<Sum>i<n. a i * a i)"
  define B where "B = (\<Sum>i<n. b i * b i)"
  define C where "C = (\<Sum>i<n. a i * b i)"
  have quad: "0 \<le> t * t * A - 2 * t * C + B" for t
  proof -
    have "(\<Sum>i<n. (t * a i - b i) * (t * a i - b i)) = t * t * A - 2 * t * C + B"
      by (simp add: A_def B_def C_def algebra_simps sum.distrib sum_subtractf sum_distrib_left)
    moreover have "0 \<le> (\<Sum>i<n. (t * a i - b i) * (t * a i - b i))"
      by (rule sum_nonneg) simp
    ultimately show ?thesis by simp
  qed
  have A0: "0 \<le> A" unfolding A_def by (rule sum_nonneg) simp
  show ?thesis
  proof (cases "A = 0")
    case True
    then have "\<forall>i\<in>{..<n}. a i * a i = 0"
      unfolding A_def by (subst (asm) sum_nonneg_eq_0_iff) simp_all
    then have "C = 0" unfolding C_def by simp
    moreover have "0 \<le> B" unfolding B_def by (rule sum_nonneg) simp
    ultimately show ?thesis using True by (simp add: A_def [symmetric] B_def [symmetric] C_def [symmetric])
  next
    case False
    then have pos: "0 < A" using A0 by simp
    have "0 \<le> (C / A) * (C / A) * A - 2 * (C / A) * C + B" by (rule quad)
    also have "(C / A) * (C / A) * A - 2 * (C / A) * C + B = B - C * C / A"
      using pos by (simp add: field_simps)
    finally have "C * C / A \<le> B" by simp
    then have "C * C \<le> A * B" using pos by (simp add: field_simps)
    then show ?thesis by (simp add: A_def B_def C_def)
  qed
qed

lemma correlation_ge_minus_one: "- 1 \<le> correlation x y"
proof (cases "stdDev x < 1 / 10 ^ 10 \<or> stdDev y < 1 / 10 ^ 10")
  case True
  then show ?thesis by (simp add: correlation_eq)
next
  case False
  then have pos: "0 < stdDev x * stdDev y" by simp
  have cs: "covariance x y * covariance x y \<le> (stdDev x * stdDev y) * (stdDev x * stdDev y)"
  proof -
    have "covariance x y * covariance x y \<le>
        (\<Sum>i<12. (x ! i - mean12 x) * (x ! i - mean12 x)) *
        (\<Sum>i<12. (y ! i - mean12 y) * (y ! i - mean12 y))"
      unfolding covariance_def by (rule cauchy_schwarz_sum)
    also have "\<dots> = (stdDev x * stdDev x) * (stdDev y * stdDev y)"
      by (simp add: stdDev_def sum_nonneg)
    finally show ?thesis by (simp add: mult_ac)
  qed
  have "\<bar>covariance x y\<bar> \<le> \<bar>stdDev x * stdDev y\<bar>"
    using cs by (simp add: abs_le_square_iff power2_eq_square)
  then have "- (stdDev x * stdDev y) \<le> covariance x y" using pos by linarith
  then have "- 1 \<le> covariance x y / (stdDev x * stdDev y)"
    using pos by (simp add: pos_le_divide_eq)
  then show ?thesis using False by (simp add: correlation_eq)
qed

section \<open>The tie-break of findBestKey\<close>

lemma keyStep_scan:
  "keyStep p (m, pitchClasses ! fst c, snd c) r =
     (\<lambda>(m, c). (m, pitchClasses ! fst c, snd c))
       (strictScan (candidateCorrelation p)
          (strictScan (candidateCorrelation p) (m, c) (r, ''major'')) (r, ''minor''))"
  by (simp add: keyStep_def strictScan_def candidateCorrelation_def Let_def)

lemma foldl_keyStep_scan:
  "foldl (keyStep p) (m, pitchClasses ! fst c, snd c) rs =
     (\<lambda>(m, c). (m, pitchClasses ! fst c, snd c))
       (foldl (strictScan (candidateCorrelation p)) (m, c)
          (concat (map (\<lambda>root'. [(root', ''major''), (root', ''minor'')]) rs)))"
proof (induction rs arbitrary: m c)
  case Nil
  then show ?case by simp
next
  case (Cons r rs)
  obtain m' c' where s: "strictScan (candidateCorrelation p)
          (strictScan (candidateCorrelation p) (m, c) (r, ''major'')) (r, ''minor'') = (m', c')"
    by (cases "strictScan (candidateCorrelation p)
          (strictScan (candidateCorrelation p) (m, c) (r, ''major'')) (r, ''minor'')")
  have "keyStep p (m, pitchClasses ! fst c, snd c) r = (m', pitchClasses ! fst c', snd c')"
    by (simp only: keyStep_scan s split)
  then show ?case using Cons.IH [of m' c'] s by simp
qed

lemma findBestKey_scan:
  "foldl (strictScan (candidateCorrelation p)) (- 1, (0, ''major'')) candidates = (m, c) \<Longrightarrow>
   findBestKey p = (pitchClasses ! fst c, snd c, jlimit 0 1 ((m + 1) / 2))"
proof -
  assume a: "foldl (strictScan (candidateCorrelation p)) (- 1, (0, ''major'')) candidates = (m, c)"
  have "pitchClasses ! fst (0::nat, ''major'') = ''C''" by (simp add: pitchClasses_def)
  then have "foldl (keyStep p) (- 1, ''C'', ''major'') [0..<12] = (m, pitchClasses ! fst c, snd c)"
    using foldl_keyStep_scan [of p "- 1" "(0, ''major'')" "[0..<12]"] a
    by (simp add: candidates_def)
  then show ?thesis by (simp add: findBestKey_def)
qed

lemma length_candidates: "length candidates = 24"
  by (simp add: candidates_def upt12)

lemma candidates_0: "candidates ! 0 = (0, ''major'')"
  by (simp add: candidates_def upt12)

lemma findBestKey_scan_result:
  "\<exists>i<24. fst (findBestKey p) = pitchClasses ! fst (candidates ! i) \<and>
          fst (snd (findBestKey p)) = snd (candidates ! i) \<and>
          (\<forall>j<24. candidateCorrelation p (candidates ! j) \<le> candidateCorrelation p (candidates ! i)) \<and>
          (\<forall>j<i. candidateCorrelation p (candidates ! j) < candidateCorrelation p (candidates ! i))"
proof -
  let ?f = "candidateCorrelation p"
  obtain m c where s: "foldl (strictScan ?f) (- 1, (0, ''major'')) candidates = (m, c)"
    by (cases "foldl (strictScan ?f) (- 1, (0, ''major'')) candidates")
  have r: "fst (findBestKey p) = pitchClasses ! fst c" "fst (snd (findBestKey p)) = snd c"
    using findBestKey_scan [OF s] by simp_all
  from strictScan_foldl [OF s] show ?thesis
  proof
    assume "m = - 1 \<and> c = (0, ''major'') \<and> (\<forall>x\<in>set candidates. ?f x \<le> - 1)"
    then have c: "c = candidates ! 0" and le: "\<forall>j<24. ?f (candidates ! j) \<le> - 1"
      by (simp_all add: candidates_0 all_set_conv_all_nth length_candidates)
    have ge: "- 1 \<le> ?f x" for x
      by (simp add: candidateCorrelation_def correlation_ge_minus_one)
    have "\<forall>j<24. ?f (candidates ! j) \<le> ?f (candidates ! 0)"
    proof (intro allI impI)
      fix j :: nat
      assume "j < 24"
      then have "?f (candidates ! j) \<le> - 1" using le by simp
      also have "- 1 \<le> ?f (candidates ! 0)" by (rule ge)
      finally show "?f (candidates ! j) \<le> ?f (candidates ! 0)" .
    qed
    then have "(0::nat) < 24 \<and> fst (findBestKey p) = pitchClasses ! fst (candidates ! 0) \<and>
          fst (snd (findBestKey p)) = snd (candidates ! 0) \<and>
          (\<forall>j<24. ?f (candidates ! j) \<le> ?f (candidates ! 0)) \<and>
          (\<forall>j<0. ?f (candidates ! j) < ?f (candidates ! 0))"
      using r c by simp
    then show ?thesis by blast
  next
    assume "\<exists>i<length candidates. c = candidates ! i \<and> m = ?f (candidates ! i) \<and> - 1 < m \<and>
        (\<forall>j<length candidates. ?f (candidates ! j) \<le> m) \<and> (\<forall>j<i. ?f (candidates ! j) < m)"
    then show ?thesis using r by (auto simp: length_candidates)
  qed
qed

text \<open>
  C7. \<open>findBestKey\<close> scans the 24 candidates in root-ascending order, major before minor
  at each root, and replaces the running best on strict increase only: for every
  chromagram, the returned key and mode are those of the first candidate, in that order,
  whose correlation is maximal.
\<close>

theorem findBestKey_first_maximum:
  "\<exists>i<24. fst (findBestKey p) = pitchClasses ! fst (candidates ! i) \<and>
          fst (snd (findBestKey p)) = snd (candidates ! i) \<and>
          (\<forall>j<24. candidateCorrelation p (candidates ! j) \<le> candidateCorrelation p (candidates ! i)) \<and>
          (\<forall>j<i. candidateCorrelation p (candidates ! j) < candidateCorrelation p (candidates ! i))"
  by (rule findBestKey_scan_result)

lemma candidateCorrelation_zero: "candidateCorrelation (replicate 12 0) c = 0"
  by (simp add: candidateCorrelation_def correlation_zero_left)

theorem findBestKey_first_maximum_witness:
  "map (candidateCorrelation (replicate 12 0)) candidates = replicate 24 0 \<and>
   fst (findBestKey (replicate 12 0)) = ''C'' \<and> fst (snd (findBestKey (replicate 12 0))) = ''major''"
proof -
  have all0: "map (candidateCorrelation (replicate 12 0)) candidates = replicate 24 0"
  proof -
    have "map (candidateCorrelation (replicate 12 0)) candidates =
        map (\<lambda>c. 0) candidates"
      by (rule map_cong) (simp_all add: candidateCorrelation_zero)
    then show ?thesis by (simp add: map_replicate_const length_candidates)
  qed
  obtain i where i: "i < 24"
      "fst (findBestKey (replicate 12 0)) = pitchClasses ! fst (candidates ! i)"
      "fst (snd (findBestKey (replicate 12 0))) = snd (candidates ! i)"
      "\<forall>j<i. candidateCorrelation (replicate 12 0) (candidates ! j) <
             candidateCorrelation (replicate 12 0) (candidates ! i)"
    using findBestKey_first_maximum [of "replicate 12 0"] by blast
  have "i = 0"
  proof (rule ccontr)
    assume "i \<noteq> 0"
    then have "candidateCorrelation (replicate 12 0) (candidates ! 0) <
        candidateCorrelation (replicate 12 0) (candidates ! i)"
      using i(4) by simp
    then show False by (simp add: candidateCorrelation_zero)
  qed
  then show ?thesis
    using i all0 by (simp add: candidates_0 pitchClasses_def)
qed

section \<open>A chromagram concentrated at A\<close>

text \<open>The pitch class of 440 Hz is 9, the index of A.\<close>

lemma pitchClass_440: "c_rem (static_cast_int (frequencyToPitchClass 440)) 12 = 9"
proof -
  have "frequencyToPitchClass 440 = 9"
    by (simp add: frequencyToPitchClass_def fmod_def static_cast_int_def)
  then show ?thesis by (simp add: static_cast_int_def c_rem_def)
qed

lemma below_12_cases:
  "(r::nat) < 12 \<Longrightarrow>
   r = 0 \<or> r = 1 \<or> r = 2 \<or> r = 3 \<or> r = 4 \<or> r = 5 \<or> r = 6 \<or> r = 7 \<or> r = 8 \<or> r = 9 \<or>
   r = 10 \<or> r = 11"
  by arith

lemma rotate_sum:
  assumes "(r::nat) < 12"
  shows "(\<Sum>i<12. g ((i + r) mod 12)) = (\<Sum>i<12. g i :: real)"
  using below_12_cases [OF assms] by (elim disjE) (simp_all add: sum12 numeral_2_eq_2 [symmetric])

lemma rotateProfile_nth: "i < 12 \<Longrightarrow> rotateProfile P r ! i = P ! ((i + r) mod 12)"
  by (simp add: rotateProfile_def)

lemma mean12_rotate: "r < 12 \<Longrightarrow> mean12 (rotateProfile P r) = mean12 P"
proof -
  assume r: "r < 12"
  have "(\<Sum>i<12. rotateProfile P r ! i) = (\<Sum>i<12. P ! ((i + r) mod 12))"
    by (rule sum.cong) (simp_all add: rotateProfile_nth)
  also have "\<dots> = (\<Sum>i<12. P ! i)" using rotate_sum [OF r, of "\<lambda>i. P ! i"] .
  finally show ?thesis by (simp add: mean12_def)
qed

lemma stdDev_rotate: "r < 12 \<Longrightarrow> stdDev (rotateProfile P r) = stdDev P"
proof -
  assume r: "r < 12"
  have "(\<Sum>i<12. (rotateProfile P r ! i - mean12 P) * (rotateProfile P r ! i - mean12 P)) =
        (\<Sum>i<12. (P ! ((i + r) mod 12) - mean12 P) * (P ! ((i + r) mod 12) - mean12 P))"
    by (rule sum.cong) (simp_all add: rotateProfile_nth)
  also have "\<dots> = (\<Sum>i<12. (P ! i - mean12 P) * (P ! i - mean12 P))"
    using rotate_sum [OF r, of "\<lambda>i. (P ! i - mean12 P) * (P ! i - mean12 P)"] .
  finally show ?thesis by (simp add: stdDev_def mean12_rotate [OF r])
qed

lemma mean12_chromagramA: "mean12 chromagramA = 1 / 12"
  by (simp add: mean12_def sum12 chromagramA_def)

lemma stdDev_chromagramA: "stdDev chromagramA = sqrt (11 / 12)"
  by (simp add: stdDev_def mean12_chromagramA sum12) (simp add: chromagramA_def)

lemma covariance_chromagramA: "covariance chromagramA y = y ! 9 - mean12 y"
  by (simp add: covariance_def mean12_chromagramA sum12)
     (simp add: chromagramA_def mean12_def sum12 field_simps)

lemma stdDev_minor: "stdDev minorProfile = sqrt (1920851 / 120000)"
  by (simp add: stdDev_def mean12_minor sum12) (simp add: minorProfile_def)

lemma sqrt_ge_tiny: "1 / 2 \<le> q \<Longrightarrow> \<not> sqrt q < 1 / 10 ^ 10"
proof -
  assume "1 / 2 \<le> q"
  then have "(1 / 2) \<le> sqrt q" by (intro real_le_rsqrt) (simp add: power2_eq_square)
  moreover have "(1 / 10 ^ 10 :: real) < 1 / 2" by simp
  ultimately show ?thesis by linarith
qed

lemma candidateCorrelation_chromagramA:
  assumes "r < 12" and P: "P = (if mode = ''major'' then majorProfile else minorProfile)"
  shows "candidateCorrelation chromagramA (r, mode) =
           (P ! ((9 + r) mod 12) - mean12 P) / (sqrt (11 / 12) * stdDev P)"
    and "0 < sqrt (11 / 12) * stdDev P"
proof -
  have "\<not> stdDev majorProfile < 1 / 10 ^ 10" "\<not> stdDev minorProfile < 1 / 10 ^ 10"
    unfolding stdDev_major stdDev_minor by (rule sqrt_ge_tiny, simp)+
  moreover have "P = majorProfile \<or> P = minorProfile" unfolding P by simp
  ultimately have big: "\<not> stdDev P < 1 / 10 ^ 10" by blast
  have bigA: "\<not> sqrt (11 / 12 :: real) < 1 / 10 ^ 10"
    by (rule sqrt_ge_tiny) simp
  show "candidateCorrelation chromagramA (r, mode) =
           (P ! ((9 + r) mod 12) - mean12 P) / (sqrt (11 / 12) * stdDev P)"
    using big bigA assms(1) P
    by (simp add: candidateCorrelation_def correlation_eq stdDev_chromagramA
        covariance_chromagramA stdDev_rotate mean12_rotate rotateProfile_nth)
  have "(0::real) < 1 / 10 ^ 10" by simp
  then have "0 < stdDev P" using big by linarith
  then show "0 < sqrt (11 / 12) * stdDev P" by simp
qed

lemma profile_peak:
  assumes "r < 12" "r \<noteq> 3"
  shows "majorProfile ! ((9 + r) mod 12) < majorProfile ! 0"
    and "minorProfile ! ((9 + r) mod 12) < minorProfile ! 0"
proof -
  show "majorProfile ! ((9 + r) mod 12) < majorProfile ! 0"
    using below_12_cases [OF assms(1)] assms(2)
    by (elim disjE) (simp_all add: majorProfile_def)
  show "minorProfile ! ((9 + r) mod 12) < minorProfile ! 0"
    using below_12_cases [OF assms(1)] assms(2)
    by (elim disjE) (simp_all add: minorProfile_def)
qed

lemma set_candidates: "set candidates = {..<12} \<times> {''major'', ''minor''}"
  by (auto simp: candidates_def)

lemma root3_beats:
  assumes "r < 12" "r \<noteq> 3" "mode = ''major'' \<or> mode = ''minor''"
  shows "candidateCorrelation chromagramA (r, mode) < candidateCorrelation chromagramA (3, mode)"
proof -
  define P where "P = (if mode = ''major'' then majorProfile else minorProfile)"
  have lt: "P ! ((9 + r) mod 12) < P ! 0"
    using profile_peak [OF assms(1,2)] by (simp add: P_def)
  have "(P ! ((9 + r) mod 12) - mean12 P) / (sqrt (11 / 12) * stdDev P) <
        (P ! 0 - mean12 P) / (sqrt (11 / 12) * stdDev P)"
    using lt candidateCorrelation_chromagramA(2) [OF assms(1) P_def]
    by (intro divide_strict_right_mono) simp_all
  then show ?thesis
    using candidateCorrelation_chromagramA(1) [OF assms(1) P_def]
      candidateCorrelation_chromagramA(1) [of 3, OF _ P_def]
    by simp
qed

text \<open>
  C2, on the code. For the chromagram with all of its energy at index 9 (A),
  \<open>findBestKey\<close> returns the root D#, not A: \<open>rotatedMajor[i] = majorProfile[(i + root) % 12]\<close>
  puts the tonic weight of the candidate \<open>root\<close> at index \<open>(12 - root) % 12\<close>, so the
  candidate that matches energy at index 9 is root 3.
\<close>

theorem findBestKey_chromagramA: "fst (findBestKey chromagramA) = ''D#''"
proof -
  let ?f = "candidateCorrelation chromagramA"
  obtain i where i: "i < 24" "fst (findBestKey chromagramA) = pitchClasses ! fst (candidates ! i)"
      "\<forall>j<24. ?f (candidates ! j) \<le> ?f (candidates ! i)"
    using findBestKey_scan_result [of chromagramA] by blast
  obtain r mode where c: "candidates ! i = (r, mode)" by (cases "candidates ! i")
  have "(r, mode) \<in> set candidates"
    using i(1) c nth_mem [of i candidates] by (simp add: length_candidates)
  then have rm: "r < 12" "mode = ''major'' \<or> mode = ''minor''"
    by (auto simp: set_candidates)
  have max: "?f x \<le> ?f (r, mode)" if "x \<in> set candidates" for x
    using that i(3) c by (auto simp: in_set_conv_nth length_candidates)
  have "r = 3"
  proof (rule ccontr)
    assume "r \<noteq> 3"
    then have "?f (r, mode) < ?f (3, mode)" using root3_beats rm by blast
    moreover have "(3, mode) \<in> set candidates" using rm(2) by (auto simp: set_candidates)
    ultimately show False using max [of "(3, mode)"] by simp
  qed
  then show ?thesis using i(2) c by (simp add: pitchClasses_def)
qed

section \<open>The tempo detector\<close>

lemma length_foldl_onsetFrame:
  "length (fst (foldl (onsetFrame fft audioData) s frames)) = length (fst s) + length frames"
  by (induction frames arbitrary: s) (simp_all add: onsetFrame_def Let_def)

lemma length_calculateOnsetStrength:
  "length (calculateOnsetStrength fft audioData numSamples) = nat ((numSamples - 2048) div 512)"
  by (simp add: calculateOnsetStrength_def Let_def length_foldl_onsetFrame fftSize_def hopSize_def)

lemma calculateOnsetStrength_empty_iff:
  "2048 \<le> numSamples \<Longrightarrow>
   calculateOnsetStrength fft audioData numSamples = [] \<longleftrightarrow> numSamples < 2560"
proof -
  assume "2048 \<le> numSamples"
  then have "nat ((numSamples - 2048) div 512) = 0 \<longleftrightarrow> numSamples < 2560" by auto
  then show ?thesis
    using length_calculateOnsetStrength [of fft audioData numSamples] by auto
qed

lemma foldl_sq_dev:
  "foldl (\<lambda>v val. v + (val - m) * (val - m)) a xs = a + (\<Sum>v\<leftarrow>xs. (v - m) ^ 2 :: real)"
  by (induction xs arbitrary: a) (simp_all add: power2_eq_square add.assoc)

lemma jlimit_clamp: "jlimit 0 1 v = clamp v 0 1"
  by (simp add: jlimit_def clamp_def max_def min_def)

lemma detectBPM_eq:
  assumes "onsetStrength = calculateOnsetStrength fft audioData numSamples"
    and "bpm = estimateTempoFromOnsets (sampleRate d) onsetStrength"
  shows "detectBPM fft d audioData numSamples =
     (if numSamples < 2048 \<or> onsetStrength = [] then (0, d)
      else if bpm < 40 \<or> bpm > 240 then (120, d\<lparr>confidence := 0.3\<rparr>)
      else (bpm, d\<lparr>confidence := clamp (populationVariance onsetStrength * 10) 0 1\<rparr>))"
  unfolding detectBPM_def Let_def assms
  by (simp add: fftSize_def foldl_sq_dev foldl_plus_sum_list jlimit_clamp populationVariance_def)

lemma estimateTempo_sentinel:
  "length onsetStrength < 10 \<or> snd (bestLagSearch sr onsetStrength) = 0 \<Longrightarrow>
   estimateTempoFromOnsets sr onsetStrength = 0"
  by (auto simp: estimateTempoFromOnsets_def Let_def)

section \<open>The transform of a frame with a single impulse\<close>

lemma dft_impulse:
  assumes "p < N" "k < N"
  shows "dft ((replicate N 0)[p := v]) ! k =
           complex_of_real v * cis (- (2 * pi * real p * real k / real N))"
proof -
  have "(\<Sum>j<N. complex_of_real ((replicate N 0)[p := v] ! j) *
            cis (- (2 * pi * real j * real k / real N))) =
        (\<Sum>j<N. if j = p then complex_of_real v * cis (- (2 * pi * real p * real k / real N)) else 0)"
    by (rule sum.cong) (auto simp: nth_list_update)
  also have "\<dots> = complex_of_real v * cis (- (2 * pi * real p * real k / real N))"
    using assms(1) by simp
  finally show ?thesis using assms(2) by (simp add: dft_def)
qed

lemma magnitude_impulse:
  "sqrt (Re (complex_of_real v * cis t) * Re (complex_of_real v * cis t) +
         Im (complex_of_real v * cis t) * Im (complex_of_real v * cis t)) = \<bar>v\<bar>"
proof -
  have "sqrt (Re (complex_of_real v * cis t) * Re (complex_of_real v * cis t) +
         Im (complex_of_real v * cis t) * Im (complex_of_real v * cis t)) =
        cmod (complex_of_real v * cis t)"
    by (simp only: cmod_def power2_eq_square)
  also have "\<dots> = \<bar>v\<bar>" by (simp add: norm_mult)
  finally show ?thesis .
qed

lemma magnitudeSpectrum_impulse:
  assumes "p < 2048"
  shows "magnitudeSpectrum (dft ((replicate 2048 0)[p := v])) = replicate 1024 \<bar>v\<bar>"
proof -
  have "map (\<lambda>i. let real' = Re (dft ((replicate 2048 0)[p := v]) ! i);
                      imag = Im (dft ((replicate 2048 0)[p := v]) ! i)
                  in sqrt (real' * real' + imag * imag)) [0..<1024] =
        map (\<lambda>i. \<bar>v\<bar>) [0..<1024]"
  proof (rule map_cong [OF refl])
    fix i :: nat
    assume "i \<in> set [0..<1024]"
    then have i: "i < 2048" by simp
    show "(let real' = Re (dft ((replicate 2048 0)[p := v]) ! i);
               imag = Im (dft ((replicate 2048 0)[p := v]) ! i)
           in sqrt (real' * real' + imag * imag)) = \<bar>v\<bar>"
      unfolding Let_def dft_impulse [OF assms i] by (rule magnitude_impulse)
  qed
  then show ?thesis by (simp add: magnitudeSpectrum_def fftSize_def map_replicate_const)
qed

lemma foldl_flux_const:
  "foldl (\<lambda>flux (i::nat). if b < a then flux + (a - b) else flux) acc xs =
     acc + real (length xs) * max 0 (a - b :: real)"
  by (induction xs arbitrary: acc) (simp_all add: algebra_simps max_def)

lemma spectralFlux_const:
  "spectralFlux (replicate 1024 a) (replicate 1024 b) = 1024 * max 0 (a - b)"
proof -
  have "foldl (\<lambda>flux i. let diff = replicate 1024 a ! i - replicate 1024 b ! i
                     in if diff > 0 then flux + diff else flux) 0 [0..<1024] =
        foldl (\<lambda>flux (i::nat). if b < a then flux + (a - b) else flux) 0 [0..<1024]"
    by (rule foldl_cong) (simp_all add: Let_def)
  then show ?thesis by (simp add: spectralFlux_def fftSize_def foldl_flux_const)
qed

text \<open>Every element of the onset envelope is a flux, hence not negative.\<close>

lemma spectralFlux_nonneg: "0 \<le> spectralFlux s p"
proof -
  have "0 \<le> a \<Longrightarrow> 0 \<le> foldl (\<lambda>flux i. let diff = s ! i - p ! i
                     in if diff > 0 then flux + diff else flux) a xs" for a :: real and xs
    by (induction xs arbitrary: a) (simp_all add: Let_def)
  then show ?thesis by (simp add: spectralFlux_def)
qed

section \<open>The Hann window\<close>

lemma applyHannWindow_hann:
  "applyHannWindow data 2048 = map (\<lambda>i. data ! i * hann i) [0..<2048]"
  by (simp add: applyHannWindow_def hann_def fftSize_def Let_def)

lemma hann_0: "hann 0 = 0"
  by (simp add: hann_def)

lemma hann_mirror: "i \<le> 2047 \<Longrightarrow> hann (2047 - i) = hann i"
proof -
  assume "i \<le> 2047"
  then have "2 * pi * real (2047 - i) / 2047 = 2 * pi - 2 * pi * real i / 2047"
    by (simp add: field_simps)
  then have "cos (2 * pi * real (2047 - i) / 2047) = cos (2 * pi * real i / 2047)"
    by (simp only: cos_2pi_minus)
  then show ?thesis by (simp add: hann_def fftSize_def)
qed

lemma hann_strict_mono:
  assumes "i < j" "j \<le> 1023"
  shows "hann i < hann j"
proof -
  have "0 \<le> 2 * pi * real i / 2047" by simp
  moreover have "2 * pi * real i / 2047 < 2 * pi * real j / 2047"
    using assms(1) by (simp add: field_simps)
  moreover have "2 * pi * real j / 2047 \<le> pi"
    using assms(2) by (simp add: field_simps)
  ultimately have "cos (2 * pi * real j / 2047) < cos (2 * pi * real i / 2047)"
    by (rule cos_monotone_0_pi)
  then show ?thesis by (simp add: hann_def fftSize_def)
qed

lemma hann_values:
  "0 < hann 1536" "hann 1536 < hann 1024" "hann 512 < hann 1024"
proof -
  have m: "hann 1536 = hann 511" "hann 1024 = hann 1023"
    using hann_mirror [of 511] hann_mirror [of 1023] by simp_all
  show "0 < hann 1536" using hann_strict_mono [of 0 511] by (simp add: m hann_0)
  show "hann 1536 < hann 1024" using hann_strict_mono [of 511 1023] by (simp add: m)
  show "hann 512 < hann 1024" using hann_strict_mono [of 512 1023] by (simp add: m)
qed

section \<open>The onset envelope of the click\<close>

lemma foldl_onsetFrame_map:
  "foldl (onsetFrame fft a) ([], z) [0..<n] =
     (map (\<lambda>k. spectralFlux (frameSpectrum fft a k) (if k = 0 then z else frameSpectrum fft a (k - 1)))
        [0..<n],
      if n = 0 then z else frameSpectrum fft a (n - 1))"
proof (induction n)
  case 0
  then show ?case by simp
next
  case (Suc n)
  then show ?case by (simp add: onsetFrame_def frameSpectrum_def Let_def)
qed

lemma calculateOnsetStrength_map:
  "calculateOnsetStrength fft a numSamples =
     map (\<lambda>k. spectralFlux (frameSpectrum fft a k)
                (if k = 0 then replicate 1024 0 else frameSpectrum fft a (k - 1)))
       [0..<nat ((numSamples - 2048) div 512)]"
  by (simp add: calculateOnsetStrength_def Let_def foldl_onsetFrame_map fftSize_def hopSize_def)

lemma click_frame:
  assumes "k \<le> 9"
  shows "applyHannWindow (drop (k * 512) clickSignal) 2048 =
           (replicate 2048 0)[1536 - 512 * k := (if k \<le> 2 then hann (1536 - 512 * k) else 0)]"
proof (rule nth_equalityI)
  show "length (applyHannWindow (drop (k * 512) clickSignal) 2048) =
        length ((replicate 2048 0)[1536 - 512 * k := (if k \<le> 2 then hann (1536 - 512 * k) else 0)])"
    by (simp add: applyHannWindow_hann)
next
  fix i
  assume "i < length (applyHannWindow (drop (k * 512) clickSignal) 2048)"
  then have i: "i < 2048" by (simp add: applyHannWindow_hann)
  have "k * 512 + i < 7168" using assms i by simp
  then have c: "clickSignal ! (k * 512 + i) = (if k * 512 + i = 1536 then 1 else 0)"
    by (simp add: clickSignal_def nth_list_update)
  have "applyHannWindow (drop (k * 512) clickSignal) 2048 ! i =
        clickSignal ! (k * 512 + i) * hann i"
    using i assms by (simp add: applyHannWindow_hann clickSignal_def)
  also have "\<dots> = (if k * 512 + i = 1536 then hann i else 0)" by (simp add: c)
  also have "\<dots> = (replicate 2048 0)[1536 - 512 * k :=
        (if k \<le> 2 then hann (1536 - 512 * k) else 0)] ! i"
  proof (cases "k * 512 + i = 1536")
    case True
    show ?thesis
    proof (cases "k \<le> 2")
      case k: True
      have "1536 - 512 * k = i" using True by arith
      then show ?thesis using True k i by simp
    next
      case k: False
      have i0: "i = 0" and p0: "1536 - 512 * k = 0" using True k by arith+
      have "(if k * 512 + 0 = 1536 then hann 0 else 0) =
          (replicate 2048 0)[0 := if k \<le> 2 then hann 0 else 0] ! (0::nat)"
        by (simp add: hann_0)
      then show ?thesis unfolding p0 i0 by simp
    qed
  next
    case False
    have "\<not> k \<le> 2" if "i = 1536 - 512 * k" using that False by arith
    then show ?thesis using False i by (auto simp: nth_list_update)
  qed
  finally show "applyHannWindow (drop (k * 512) clickSignal) 2048 ! i =
        (replicate 2048 0)[1536 - 512 * k := (if k \<le> 2 then hann (1536 - 512 * k) else 0)] ! i" .
qed

lemma hann_nonneg: "0 \<le> hann i"
  by (simp add: hann_def)

lemma click_spectrum:
  assumes "k \<le> 9"
  shows "frameSpectrum dft clickSignal k =
           replicate 1024 (if k \<le> 2 then hann (1536 - 512 * k) else 0)"
proof -
  have "frameSpectrum dft clickSignal k =
      replicate 1024 \<bar>if k \<le> 2 then hann (1536 - 512 * k) else 0\<bar>"
    unfolding frameSpectrum_def hopSize_def fftSize_def click_frame [OF assms]
    by (rule magnitudeSpectrum_impulse) simp
  then show ?thesis by (simp add: hann_nonneg)
qed

lemma upt10: "[0..<10] = [0, 1, 2, 3, 4, 5, 6, 7, 8, 9]"
  by code_simp

lemma click_envelope:
  "calculateOnsetStrength dft clickSignal 7168 =
     [1024 * hann 1536, 1024 * (hann 1024 - hann 1536), 0, 0, 0, 0, 0, 0, 0, 0]"
proof -
  have "calculateOnsetStrength dft clickSignal 7168 =
      map (\<lambda>k. spectralFlux (frameSpectrum dft clickSignal k)
                (if k = 0 then replicate 1024 0 else frameSpectrum dft clickSignal (k - 1)))
        [0..<10]"
    by (simp add: calculateOnsetStrength_map)
  then show ?thesis
    using hann_values hann_nonneg [of 512]
    by (simp add: upt10 click_spectrum spectralFlux_const max_def)
qed

lemma upt_small:
  "[0..<9] = [0, 1, 2, 3, 4, 5, 6, 7, 8]" "[0..<8] = [0, 1, 2, 3, 4, 5, 6, 7]"
  "[0..<7] = [0, 1, 2, 3, 4, 5, 6]" "[0..<6] = [0, 1, 2, 3, 4, 5]"
  by code_simp+

lemma two_onsets_autocorrelate:
  "autocorrelate [a, b, 0, 0, 0, 0, 0, 0, 0, 0] 1 = a * b / 9"
  "autocorrelate [a, b, 0, 0, 0, 0, 0, 0, 0, 0] 2 = 0"
  "autocorrelate [a, b, 0, 0, 0, 0, 0, 0, 0, 0] 3 = 0"
  "autocorrelate [a, b, 0, 0, 0, 0, 0, 0, 0, 0] 4 = 0"
  by (simp_all add: autocorrelate_def upt_small)

lemma two_onsets_bestLag:
  assumes "0 < a" "0 < b"
  shows "snd (bestLagSearch 2048 [a, b, 0, 0, 0, 0, 0, 0, 0, 0]) = 1"
    and "snd (bestLagSearch 2560 [a, b, 0, 0, 0, 0, 0, 0, 0, 0]) = 1"
proof -
  let ?e = "[a, b, 0, 0, 0, 0, 0, 0, 0, 0]"
  have ab: "0 < a * b" using assms by simp
  have "lagStep ?e (0, 0) 1 = (a * b / 9, 1)"
    using ab by (simp add: lagStep_def two_onsets_autocorrelate)
  moreover have "lagStep ?e (a * b / 9, 1) 2 = (a * b / 9, 1)"
    "lagStep ?e (a * b / 9, 1) 3 = (a * b / 9, 1)" "lagStep ?e (a * b / 9, 1) 4 = (a * b / 9, 1)"
    using ab by (simp_all add: lagStep_def two_onsets_autocorrelate)
  ultimately have s: "foldl (lagStep ?e) (0, 0) [1, 2, 3, 4] = (a * b / 9, 1)"
    by simp
  have r1: "[static_cast_int (2048 / real hopSize * 60 / 240)..
             jmin (static_cast_int (2048 / real hopSize * 60 / 40)) (int (length ?e div 2)) - 1] =
            [1, 2, 3, 4]"
    by (simp add: hopSize_def static_cast_int_def jmin_def upto_rec1)
  have r2: "[static_cast_int (2560 / real hopSize * 60 / 240)..
             jmin (static_cast_int (2560 / real hopSize * 60 / 40)) (int (length ?e div 2)) - 1] =
            [1, 2, 3, 4]"
    by (simp add: hopSize_def static_cast_int_def jmin_def upto_rec1)
  show "snd (bestLagSearch 2048 ?e) = 1"
    by (simp only: bestLagSearch_def Let_def r1 s snd_conv)
  show "snd (bestLagSearch 2560 ?e) = 1"
    by (simp only: bestLagSearch_def Let_def r2 s snd_conv)
qed

lemma two_onsets_tempo:
  assumes "0 < a" "0 < b"
  shows "estimateTempoFromOnsets 2048 [a, b, 0, 0, 0, 0, 0, 0, 0, 0] = 240"
    and "estimateTempoFromOnsets 2560 [a, b, 0, 0, 0, 0, 0, 0, 0, 0] = 300"
  unfolding estimateTempoFromOnsets_def Let_def two_onsets_bestLag [OF assms]
  by (simp_all add: hopSize_def)

lemma click_onsets_positive:
  "0 < 1024 * hann 1536" "0 < 1024 * (hann 1024 - hann 1536)"
  using hann_values by simp_all

lemma click_tempo:
  "estimateTempoFromOnsets 2048 (calculateOnsetStrength dft clickSignal 7168) = 240"
  "estimateTempoFromOnsets 2560 (calculateOnsetStrength dft clickSignal 7168) = 300"
  unfolding click_envelope by (rule two_onsets_tempo [OF click_onsets_positive])+

lemma hann_512: "1 / 2 < hann 512"
proof -
  have "cos (2 * pi * real (512::nat) / 2047) < cos (pi / 2)"
    by (rule cos_monotone_0_pi) (simp_all add: field_simps)
  then show ?thesis by (simp add: hann_def fftSize_def)
qed

lemma two_onsets_confidence:
  assumes "4 \<le> a + b"
  shows "clamp (populationVariance [a, b, 0, 0, 0, 0, 0, 0, 0, 0] * 10) 0 1 = 1"
proof -
  define m where "m = (a + b) / 10"
  have "2 / 5 \<le> m" using assms by (simp add: m_def)
  then have "(2 / 5) * (2 / 5) \<le> m * m" by (intro mult_mono) simp_all
  then have "1 \<le> 8 * (m * m)" by simp
  moreover have "0 \<le> (a - m) * (a - m)" "0 \<le> (b - m) * (b - m)" by simp_all
  ultimately have "1 \<le> (a - m) * (a - m) + (b - m) * (b - m) + 8 * (m * m)" by linarith
  moreover have "populationVariance [a, b, 0, 0, 0, 0, 0, 0, 0, 0] * 10 =
      (a - m) * (a - m) + (b - m) * (b - m) + 8 * (m * m)"
    by (simp add: populationVariance_def m_def power2_eq_square)
  ultimately show ?thesis by (simp add: clamp_def)
qed

lemma click_confidence:
  "clamp (populationVariance (calculateOnsetStrength dft clickSignal 7168) * 10) 0 1 = 1"
proof -
  have "1 / 2 < hann 1024" using hann_512 hann_values(3) by linarith
  then have "4 \<le> 1024 * hann 1536 + 1024 * (hann 1024 - hann 1536)" by simp
  then show ?thesis unfolding click_envelope by (rule two_onsets_confidence)
qed

section \<open>What detectBPM returns\<close>

lemma empty_envelope_tempo: "estimateTempoFromOnsets sr [] = 0"
  by (simp add: estimateTempoFromOnsets_def)

lemma short_input_envelope:
  "numSamples < 2048 \<Longrightarrow> calculateOnsetStrength fft audioData numSamples = []"
  using length_calculateOnsetStrength [of fft audioData numSamples] by simp

text \<open>
  C9. When the tempo estimate of \<open>detectBPM\<close> is within \<open>[40, 240]\<close>, the call returns it
  and sets the confidence to \<open>clamp(variance * 10, 0, 1)\<close>, where \<open>variance\<close> is the
  population variance of the onset-strength envelope.
\<close>

theorem confidence_from_variance:
  assumes "onsetStrength = calculateOnsetStrength fft audioData numSamples"
    and "bpm = estimateTempoFromOnsets (sampleRate d) onsetStrength"
    and "40 \<le> bpm" and "bpm \<le> 240"
  shows "detectBPM fft d audioData numSamples =
           (bpm, d\<lparr>confidence := clamp (populationVariance onsetStrength * 10) 0 1\<rparr>)"
proof -
  have ne: "onsetStrength \<noteq> []"
    using assms(2,3) empty_envelope_tempo [of "sampleRate d"] by auto
  then have "\<not> numSamples < 2048"
    using assms(1) short_input_envelope [of numSamples fft audioData] by auto
  then show ?thesis
    using ne assms(3,4) by (simp add: detectBPM_eq [OF assms(1,2)])
qed

theorem confidence_from_variance_witness:
  "estimateTempoFromOnsets (sampleRate (prepare 2048 BPMDetector_default))
     (calculateOnsetStrength dft clickSignal 7168) = 240 \<and> (40::real) \<le> 240 \<and>
   clamp (populationVariance (calculateOnsetStrength dft clickSignal 7168) * 10) 0 1 = 1 \<and>
   detectBPM dft (prepare 2048 BPMDetector_default) clickSignal 7168 =
     (240, \<lparr>sampleRate = 2048, confidence = 1\<rparr>)"
proof -
  have t: "240 = estimateTempoFromOnsets (sampleRate (prepare 2048 BPMDetector_default))
     (calculateOnsetStrength dft clickSignal 7168)"
    by (simp add: prepare_def click_tempo)
  have "detectBPM dft (prepare 2048 BPMDetector_default) clickSignal 7168 =
     (240, (prepare 2048 BPMDetector_default)\<lparr>confidence := 1\<rparr>)"
    using confidence_from_variance [OF refl t] by (simp add: click_confidence)
  then show ?thesis
    using t by (simp add: click_confidence prepare_def BPMDetector_default_def)
qed

text \<open>
  C3, as the code has it. \<open>detectBPM\<close> returns 0 and leaves the object untouched when
  \<open>numSamples < fftSize\<close> or the onset envelope is empty; otherwise it returns the tempo
  estimate when that lies in \<open>[40, 240]\<close>, and exactly the pair \<open>(120, 0.3)\<close> when a
  non-zero estimate lies outside. Every returned tempo is 0 or within \<open>[40, 240]\<close>.
\<close>

theorem detectBPM_range:
  assumes "onsetStrength = calculateOnsetStrength fft audioData numSamples"
    and "bpm = estimateTempoFromOnsets (sampleRate d) onsetStrength"
    and "result = detectBPM fft d audioData numSamples"
  shows "(numSamples < 2048 \<or> onsetStrength = [] \<longrightarrow> result = (0, d)) \<and>
         (2048 \<le> numSamples \<and> onsetStrength \<noteq> [] \<and> 40 \<le> bpm \<and> bpm \<le> 240 \<longrightarrow>
            fst result = bpm) \<and>
         (2048 \<le> numSamples \<and> onsetStrength \<noteq> [] \<and> bpm \<noteq> 0 \<and> (bpm < 40 \<or> 240 < bpm) \<longrightarrow>
            result = (120, d\<lparr>confidence := 0.3\<rparr>)) \<and>
         (fst result = 0 \<or> 40 \<le> fst result \<and> fst result \<le> 240)"
  unfolding assms(3) detectBPM_eq [OF assms(1,2)] by auto

theorem detectBPM_range_witness:
  "detectBPM dft BPMDetector_default (replicate 1000 0) 1000 = (0, BPMDetector_default) \<and>
   fst (detectBPM dft (prepare 2048 BPMDetector_default) clickSignal 7168) = 240 \<and>
   estimateTempoFromOnsets 2560 (calculateOnsetStrength dft clickSignal 7168) = 300 \<and>
   detectBPM dft (prepare 2560 BPMDetector_default) clickSignal 7168 =
     (120, (prepare 2560 BPMDetector_default)\<lparr>confidence := 0.3\<rparr>)"
proof -
  have ne: "calculateOnsetStrength dft clickSignal 7168 \<noteq> []"
    by (simp add: click_envelope)
  have s: "sampleRate (prepare 2048 BPMDetector_default) = 2048"
    "sampleRate (prepare 2560 BPMDetector_default) = 2560"
    by (simp_all add: prepare_def)
  show ?thesis
    using detectBPM_range [where fft = dft and audioData = "replicate 1000 0" and numSamples = 1000
          and d = BPMDetector_default, OF refl refl refl]
      detectBPM_range [where fft = dft and audioData = clickSignal and numSamples = 7168
          and d = "prepare 2048 BPMDetector_default", OF refl refl refl]
      detectBPM_range [where fft = dft and audioData = clickSignal and numSamples = 7168
          and d = "prepare 2560 BPMDetector_default", OF refl refl refl]
      ne
    by (simp add: s click_tempo)
qed

theorem detectBPM_range_counterexample:
  "\<not> (40 \<le> fst (detectBPM dft BPMDetector_default (replicate 1000 0) 1000) \<and>
      fst (detectBPM dft BPMDetector_default (replicate 1000 0) 1000) \<le> 240 \<or>
      fst (detectBPM dft BPMDetector_default (replicate 1000 0) 1000) = 120 \<and>
      confidence (snd (detectBPM dft BPMDetector_default (replicate 1000 0) 1000)) = 0.3)"
  by (simp add: detectBPM_def fftSize_def)

section \<open>Calls on the same detector object\<close>

lemma detectBPM_sampleRate: "sampleRate (snd (detectBPM fft d audioData numSamples)) = sampleRate d"
  by (simp add: detectBPM_eq [OF refl refl])

lemma runCalls_sampleRate: "sampleRate (runCalls fft d calls) = sampleRate d"
proof -
  have "sampleRate (foldl (\<lambda>d' (audioData, numSamples). snd (detectBPM fft d' audioData numSamples))
          d calls) = sampleRate d"
    by (induction calls arbitrary: d) (simp_all add: detectBPM_sampleRate split: prod.splits)
  then show ?thesis by (simp add: runCalls_def)
qed

lemma detectBPM_return_value:
  "sampleRate d1 = sampleRate d2 \<Longrightarrow>
   fst (detectBPM fft d1 audioData numSamples) = fst (detectBPM fft d2 audioData numSamples)"
  by (simp add: detectBPM_eq [OF refl refl])

lemma detectBPM_long_buffer:
  assumes "sampleRate d1 = sampleRate d2" "2560 \<le> numSamples"
  shows "detectBPM fft d1 audioData numSamples = detectBPM fft d2 audioData numSamples"
proof -
  have "calculateOnsetStrength fft audioData numSamples \<noteq> []"
    using assms(2) calculateOnsetStrength_empty_iff [of numSamples fft audioData] by simp
  moreover have "d1\<lparr>confidence := c\<rparr> = d2\<lparr>confidence := c\<rparr>" for c
    using assms(1) by (cases d1, cases d2) simp
  ultimately show ?thesis
    using assms by (simp add: detectBPM_eq [OF refl refl])
qed

lemma detectBPM_short_buffer:
  "numSamples < 2560 \<Longrightarrow> detectBPM fft d audioData numSamples = (0, d)"
proof (cases "numSamples < 2048")
  case True
  then show ?thesis by (simp add: detectBPM_eq [OF refl refl])
next
  case False
  assume "numSamples < 2560"
  then have "calculateOnsetStrength fft audioData numSamples = []"
    using False calculateOnsetStrength_empty_iff [of numSamples fft audioData] by simp
  then show ?thesis by (simp add: detectBPM_eq [OF refl refl])
qed

text \<open>
  C4, as the code has it. After any two histories of calls on a detector prepared at the
  same sample rate, a call with the same samples and count returns the same bpm, and
  \<open>detectKey\<close> returns the same tuple; the confidence read by \<open>getConfidence\<close> after the
  call is the same too when the count is at least 2560 (\<open>fftSize + hopSize\<close>). With a
  smaller count \<open>detectBPM\<close> returns 0 and \<open>getConfidence\<close> reads what the earlier calls
  left.
\<close>

theorem detect_after_history:
  "fst (detectBPM fft (runCalls fft d h1) audioData numSamples) =
     fst (detectBPM fft (runCalls fft d h2) audioData numSamples) \<and>
   (2560 \<le> numSamples \<longrightarrow>
      detectBPM fft (runCalls fft d h1) audioData numSamples =
      detectBPM fft (runCalls fft d h2) audioData numSamples) \<and>
   (numSamples < 2560 \<longrightarrow>
      fst (detectBPM fft (runCalls fft d h1) audioData numSamples) = 0 \<and>
      getConfidence (snd (detectBPM fft (runCalls fft d h1) audioData numSamples)) =
        getConfidence (runCalls fft d h1)) \<and>
   (keySampleRate k1 = keySampleRate k2 \<longrightarrow>
      detectKey fft k1 audioData numSamples = detectKey fft k2 audioData numSamples)"
proof -
  have sr: "sampleRate (runCalls fft d h1) = sampleRate (runCalls fft d h2)"
    by (simp add: runCalls_sampleRate)
  show ?thesis
    using detectBPM_return_value [OF sr] detectBPM_long_buffer [OF sr]
    by (simp add: detectBPM_short_buffer detectKey_def)
qed

theorem detect_after_history_witness:
  "(2560::int) \<le> 2560 \<and>
   detectBPM dft (runCalls dft BPMDetector_default []) (replicate 2560 0) 2560 =
   detectBPM dft (runCalls dft BPMDetector_default [(replicate 2560 0, 2560)]) (replicate 2560 0) 2560 \<and>
   (1000::int) < 2560 \<and>
   getConfidence (snd (detectBPM dft (runCalls dft BPMDetector_default []) (replicate 1000 0) 1000)) =
     0.5 \<and>
   keySampleRate KeyDetector_default = keySampleRate (prepareKey 44100 KeyDetector_default) \<and>
   detectKey dft KeyDetector_default (replicate 2560 0) 2560 =
     detectKey dft (prepareKey 44100 KeyDetector_default) (replicate 2560 0) 2560"
  using detect_after_history [of dft BPMDetector_default "[]" "replicate 2560 0" 2560
      "[(replicate 2560 0, 2560)]" KeyDetector_default "prepareKey 44100 KeyDetector_default"]
    detect_after_history [of dft BPMDetector_default "[]" "replicate 1000 0" 1000 "[]"
      KeyDetector_default KeyDetector_default]
  by (simp add: runCalls_def getConfidence_def BPMDetector_default_def prepareKey_def
      KeyDetector_default_def)

theorem stale_confidence_counterexample:
  "sampleRate (runCalls dft (prepare 2048 BPMDetector_default) []) =
     sampleRate (runCalls dft (prepare 2048 BPMDetector_default) [(clickSignal, 7168)]) \<and>
   getConfidence (snd (detectBPM dft (runCalls dft (prepare 2048 BPMDetector_default) [])
       (replicate 1000 0) 1000)) = 0.5 \<and>
   getConfidence (snd (detectBPM dft
       (runCalls dft (prepare 2048 BPMDetector_default) [(clickSignal, 7168)])
       (replicate 1000 0) 1000)) = 1"
proof -
  have ne: "calculateOnsetStrength dft clickSignal 7168 \<noteq> []"
    by (simp add: click_envelope)
  have "detectBPM dft (prepare 2048 BPMDetector_default) clickSignal 7168 =
      (240, \<lparr>sampleRate = 2048, confidence = 1\<rparr>)"
    using ne
    by (simp add: detectBPM_eq [OF refl refl] prepare_def BPMDetector_default_def click_tempo
        click_confidence)
  then have "runCalls dft (prepare 2048 BPMDetector_default) [(clickSignal, 7168)] =
      \<lparr>sampleRate = 2048, confidence = 1\<rparr>"
    by (simp add: runCalls_def)
  then show ?thesis
    by (simp add: detectBPM_short_buffer getConfidence_def runCalls_def prepare_def
        BPMDetector_default_def)
qed

section \<open>The lags that are searched\<close>

lemma static_cast_int_mono:
  assumes "x \<le> y"
  shows "static_cast_int x \<le> static_cast_int y"
proof (cases "0 \<le> x")
  case True
  then show ?thesis using assms by (simp add: static_cast_int_def floor_mono)
next
  case False
  show ?thesis
  proof (cases "0 \<le> y")
    case True
    have "\<lceil>x\<rceil> \<le> 0" using False by (simp add: ceiling_le_iff)
    moreover have "0 \<le> \<lfloor>y\<rfloor>" using True by simp
    ultimately have "\<lceil>x\<rceil> \<le> \<lfloor>y\<rfloor>" by linarith
    then show ?thesis using False True by (simp add: static_cast_int_def)
  next
    case y: False
    then show ?thesis using False assms by (simp add: static_cast_int_def ceiling_mono)
  qed
qed

lemma searched_lags_in_range:
  assumes "lag \<in> set [static_cast_int (sr / real hopSize * 60 / 240)..
      jmin (static_cast_int (sr / real hopSize * 60 / 40)) (int (length onsetStrength div 2)) - 1]"
  shows "0 \<le> lag \<and> lag < int (length onsetStrength)"
proof -
  let ?f = "sr / real hopSize"
  have lo: "static_cast_int (?f * 60 / 240) \<le> lag"
    and hi: "lag < jmin (static_cast_int (?f * 60 / 40)) (int (length onsetStrength div 2))"
    using assms by simp_all
  have "lag < int (length onsetStrength div 2)" using hi by (simp add: jmin_def split: if_splits)
  then have up: "lag < int (length onsetStrength)" by linarith
  have "0 \<le> lag"
  proof (rule ccontr)
    assume "\<not> 0 \<le> lag"
    then have neg: "static_cast_int (?f * 60 / 240) < 0" using lo by linarith
    then have "?f * 60 / 240 < 0"
      by (simp add: static_cast_int_def split: if_splits)
    then have "?f * 60 / 40 \<le> ?f * 60 / 240" by (simp add: field_simps)
    then have "static_cast_int (?f * 60 / 40) \<le> static_cast_int (?f * 60 / 240)"
      by (rule static_cast_int_mono)
    moreover have "lag < static_cast_int (?f * 60 / 40)"
      using hi by (simp add: jmin_def split: if_splits)
    ultimately show False using lo by linarith
  qed
  then show ?thesis using up by simp
qed

section \<open>Silence\<close>

lemma dft_zero: "k < N \<Longrightarrow> dft (replicate N 0) ! k = 0"
  by (simp add: dft_def)

lemma frameSpectrum_silence:
  assumes "k * 512 + 2048 \<le> N"
  shows "frameSpectrum dft (replicate N 0) k = replicate 1024 0"
proof -
  have "map (\<lambda>i. drop (k * 512) (replicate N 0) ! i * hann i) [0..<2048] =
        map (\<lambda>i. 0) [0..<2048]"
    using assms by (intro map_cong) simp_all
  moreover have "(replicate 2048 0)[0 := 0] = replicate 2048 (0::real)"
    by (simp add: list_eq_iff_nth_eq nth_list_update)
  ultimately have w:
    "applyHannWindow (drop (k * 512) (replicate N 0)) 2048 = (replicate 2048 0)[0 := 0]"
    by (simp add: applyHannWindow_hann map_replicate_const)
  have "magnitudeSpectrum (dft ((replicate 2048 0)[0 := 0])) = replicate 1024 0"
    using magnitudeSpectrum_impulse [of 0 0] by simp
  then show ?thesis unfolding frameSpectrum_def hopSize_def fftSize_def w .
qed

lemma silence_envelope:
  assumes "numSamples = int N" "2048 \<le> N"
  shows "calculateOnsetStrength dft (replicate N 0) numSamples = replicate ((N - 2048) div 512) 0"
proof -
  have n: "nat ((numSamples - 2048) div 512) = (N - 2048) div 512"
    using assms by (simp add: nat_div_distrib nat_diff_distrib)
  have "map (\<lambda>k. spectralFlux (frameSpectrum dft (replicate N 0) k)
                (if k = 0 then replicate 1024 0 else frameSpectrum dft (replicate N 0) (k - 1)))
          [0..<(N - 2048) div 512] =
        map (\<lambda>k. 0) [0..<(N - 2048) div 512]"
  proof (rule map_cong [OF refl])
    fix k
    assume "k \<in> set [0..<(N - 2048) div 512]"
    then have "k < (N - 2048) div 512" by simp
    then have k: "k * 512 + 2048 \<le> N" "(k - 1) * 512 + 2048 \<le> N"
      using assms(2) by arith+
    have "(if k = 0 then replicate 1024 0 else frameSpectrum dft (replicate N 0) (k - 1)) =
        replicate 1024 0"
      by (simp only: frameSpectrum_silence [OF k(2)] if_cancel)
    then show "spectralFlux (frameSpectrum dft (replicate N 0) k)
                (if k = 0 then replicate 1024 0 else frameSpectrum dft (replicate N 0) (k - 1)) = 0"
      by (simp only: frameSpectrum_silence [OF k(1)] spectralFlux_const) simp
  qed
  then show ?thesis by (simp add: calculateOnsetStrength_map n map_replicate_const)
qed

lemma autocorrelate_silence:
  assumes "0 \<le> lag"
  shows "autocorrelate (replicate n 0) lag = 0"
proof -
  have "fst (foldl (\<lambda>(sum', count) i.
             (sum' + replicate n 0 ! i * replicate n 0 ! nat (int i + lag), count + 1))
          (s, c) xs) = s" if "set xs \<subseteq> {..<n}" for xs :: "nat list" and c :: int and s :: real
    using that by (induction xs arbitrary: s c) simp_all
  moreover have "set [0..<nat (int n - lag)] \<subseteq> {..<n}" using assms by auto
  ultimately show ?thesis by (simp add: autocorrelate_def Let_def)
qed

lemma bestLagSearch_silence: "bestLagSearch sr (replicate n 0) = (0, 0)"
proof -
  have "foldl (lagStep (replicate n 0)) (0, 0) lags = (0, 0)" if "\<forall>lag\<in>set lags. 0 \<le> lag" for lags
    using that by (induction lags) (simp_all add: lagStep_def autocorrelate_silence)
  moreover have "\<forall>lag\<in>set [static_cast_int (sr / real hopSize * 60 / 240)..
      jmin (static_cast_int (sr / real hopSize * 60 / 40)) (int (length (replicate n (0::real)) div 2)) - 1].
      0 \<le> lag"
    using searched_lags_in_range [of _ sr "replicate n 0"] by blast
  ultimately show ?thesis unfolding bestLagSearch_def Let_def by blast
qed

section \<open>The sentinel of the tempo estimate\<close>

text \<open>
  C1, on the code. With at least \<open>fftSize\<close> samples and a non-empty onset envelope, when
  the envelope has fewer than 10 elements or the lag search ends with \<open>bestLag = 0\<close>,
  \<open>estimateTempoFromOnsets\<close> returns 0, the range check of \<open>detectBPM\<close> takes it for an
  out-of-range tempo, and the call returns 120 and sets the confidence to 0.3.
\<close>

theorem sentinel_becomes_fallback:
  assumes "2048 \<le> numSamples"
    and "onsetStrength = calculateOnsetStrength fft audioData numSamples"
    and "onsetStrength \<noteq> []"
    and "length onsetStrength < 10 \<or> snd (bestLagSearch (sampleRate d) onsetStrength) = 0"
  shows "detectBPM fft d audioData numSamples = (120, d\<lparr>confidence := 0.3\<rparr>)"
  using assms(1,3) estimateTempo_sentinel [OF assms(4)]
  by (simp add: detectBPM_eq [OF assms(2) refl])

theorem sentinel_becomes_fallback_witness:
  "length (calculateOnsetStrength dft (replicate 2560 0) 2560) = 1 \<and>
   detectBPM dft BPMDetector_default (replicate 2560 0) 2560 =
     (120, BPMDetector_default\<lparr>confidence := 0.3\<rparr>) \<and>
   length (calculateOnsetStrength dft (replicate 32768 0) 32768) = 60 \<and>
   snd (bestLagSearch 44100 (calculateOnsetStrength dft (replicate 32768 0) 32768)) = 0 \<and>
   detectBPM dft BPMDetector_default (replicate 32768 0) 32768 =
     (120, BPMDetector_default\<lparr>confidence := 0.3\<rparr>) \<and>
   getConfidence BPMDetector_default = 0.5"
proof -
  have l: "length (calculateOnsetStrength dft (replicate 2560 0) 2560) = 1"
    "length (calculateOnsetStrength dft (replicate 32768 0) 32768) = 60"
    by (simp_all add: length_calculateOnsetStrength)
  then have ne: "calculateOnsetStrength dft (replicate 2560 0) 2560 \<noteq> []"
    "calculateOnsetStrength dft (replicate 32768 0) 32768 \<noteq> []"
    by auto
  have b: "snd (bestLagSearch 44100 (calculateOnsetStrength dft (replicate 32768 0) 32768)) = 0"
    by (simp add: silence_envelope bestLagSearch_silence)
  have s: "sampleRate BPMDetector_default = 44100" by (simp add: BPMDetector_default_def)
  show ?thesis
    using sentinel_becomes_fallback [where fft = dft and audioData = "replicate 2560 0"
        and numSamples = 2560 and d = BPMDetector_default, OF _ refl ne(1)]
      sentinel_becomes_fallback [where fft = dft and audioData = "replicate 32768 0"
        and numSamples = 32768 and d = BPMDetector_default, OF _ refl ne(2)]
      l b
    by (simp add: s getConfidence_def) (simp add: BPMDetector_default_def)
qed

section \<open>The total of the chromagram\<close>

lemma binEnergy_nonneg: "0 \<le> binEnergy sr fftData bin"
  by (simp add: binEnergy_def)

lemma sum_list_update_add:
  "i < length xs \<Longrightarrow> sum_list (xs[i := xs ! i + m]) = sum_list xs + (m :: real)"
proof (induction xs arbitrary: i)
  case Nil
  then show ?case by simp
next
  case (Cons x xs)
  then show ?case by (cases i) simp_all
qed

lemma sum_list_chromaBin:
  assumes "chroma_ok c"
  shows "sum_list (chromaBin sr fftData c bin) = sum_list c + binEnergy sr fftData bin"
proof (cases "real bin * sr / real keyFftSize < 27.5 \<or> real bin * sr / real keyFftSize > 4186")
  case True
  then show ?thesis by (simp add: chromaBin_def binEnergy_def)
next
  case False
  define idx where
    "idx = nat (c_rem (static_cast_int (frequencyToPitchClass (real bin * sr / real keyFftSize))) 12)"
  have f: "27.5 \<le> real bin * sr / real keyFftSize" using False by linarith
  have "idx < 12"
    using pitchClassIndex_range [OF f] unfolding idx_def by linarith
  then have "idx < length c" using assms by (simp add: chroma_ok_def)
  then have "sum_list (c[idx := c ! idx + m]) = sum_list c + m" for m
    by (rule sum_list_update_add)
  then show ?thesis
    using False by (simp add: chromaBin_def binEnergy_def Let_def idx_def)
qed

lemma sum_list_foldl_chromaBin:
  "chroma_ok c \<Longrightarrow>
   sum_list (foldl (chromaBin sr fftData) c bins) =
     sum_list c + (\<Sum>bin\<leftarrow>bins. binEnergy sr fftData bin)"
  by (induction bins arbitrary: c) (simp_all add: sum_list_chromaBin chromaBin_ok add.assoc)

lemma chromaBin_no_energy:
  assumes "fftData ! bin = 0"
  shows "chromaBin sr fftData c bin = c"
  using assms by (simp add: chromaBin_def Let_def)

lemma chromaFrame_silence:
  assumes "frame * 512 + 4096 \<le> N"
  shows "chromaFrame dft sr (replicate N 0) c frame = c"
proof -
  have "map (\<lambda>i. replicate N (0::real) ! (frame * keyHopSize + i) *
                  (0.5 * (1 - cos (2 * pi * real i / real (keyFftSize - 1))))) [0..<keyFftSize] =
        map (\<lambda>i. 0) [0..<keyFftSize]"
    using assms by (intro map_cong) (simp_all add: keyFftSize_def keyHopSize_def)
  then have w: "map (\<lambda>i. replicate N (0::real) ! (frame * keyHopSize + i) *
                  (0.5 * (1 - cos (2 * pi * real i / real (keyFftSize - 1))))) [0..<keyFftSize] =
        replicate 4096 0"
    by (simp add: map_replicate_const keyFftSize_def)
  have "foldl (chromaBin sr (dft (replicate 4096 0))) c bins = c"
    if "set bins \<subseteq> {..<4096}" for bins
    using that by (induction bins) (simp_all add: chromaBin_no_energy dft_zero)
  then have "foldl (chromaBin sr (dft (replicate 4096 0))) c [1..<keyFftSize div 2] = c"
    by (simp add: keyFftSize_def subset_iff)
  then show ?thesis unfolding chromaFrame_def Let_def w .
qed

lemma silence_chromagram:
  assumes "numSamples = int N"
  shows "calculateChromagram dft sr (replicate N 0) numSamples = replicate 12 0"
proof -
  have "foldl (chromaFrame dft sr (replicate N 0)) c frames = c"
    if "\<forall>frame\<in>set frames. frame * 512 + 4096 \<le> N" for frames c
    using that by (induction frames) (simp_all add: chromaFrame_silence)
  moreover have "\<forall>frame\<in>set [0..<nat ((numSamples - int keyFftSize) div int keyHopSize)].
      frame * 512 + 4096 \<le> N"
  proof
    fix frame
    assume "frame \<in> set [0..<nat ((numSamples - int keyFftSize) div int keyHopSize)]"
    then have "int frame < (int N - 4096) div 512"
      using assms by (simp add: keyFftSize_def keyHopSize_def)
    then show "frame * 512 + 4096 \<le> N" by linarith
  qed
  ultimately show ?thesis unfolding calculateChromagram_def Let_def by blast
qed

section \<open>The chromagram of the click\<close>

lemma member_le_sum_list_nonneg:
  assumes "\<And>y. 0 \<le> f y"
  shows "x \<in> set xs \<Longrightarrow> f x \<le> (\<Sum>y\<leftarrow>xs. f y :: real)"
proof (induction xs)
  case Nil
  then show ?case by simp
next
  case (Cons a xs)
  have "0 \<le> (\<Sum>y\<leftarrow>xs. f y)" by (rule sum_list_nonneg) (auto simp: assms)
  then show ?case using Cons assms [of a] by auto
qed

lemma keyClick_window:
  "map (\<lambda>i. keyClick ! (0 * keyHopSize + i) *
                  (0.5 * (1 - cos (2 * pi * real i / real (keyFftSize - 1))))) [0..<keyFftSize] =
     (replicate 4096 0)[2048 := 0.5 * (1 + cos (pi / 4095))]"
proof (rule nth_equalityI)
  show "length (map (\<lambda>i. keyClick ! (0 * keyHopSize + i) *
                  (0.5 * (1 - cos (2 * pi * real i / real (keyFftSize - 1))))) [0..<keyFftSize]) =
        length ((replicate 4096 0)[2048 := 0.5 * (1 + cos (pi / 4095))])"
    by (simp add: keyFftSize_def)
next
  fix i
  assume "i < length (map (\<lambda>i. keyClick ! (0 * keyHopSize + i) *
                  (0.5 * (1 - cos (2 * pi * real i / real (keyFftSize - 1))))) [0..<keyFftSize])"
  then have i: "i < 4096" by (simp add: keyFftSize_def)
  have "2 * pi * 2048 / 4095 = pi + pi / 4095" by (simp add: field_simps)
  then have c: "cos (2 * pi * 2048 / 4095) = - cos (pi / 4095)"
    by (simp only: cos_periodic_pi2)
  have k: "keyClick ! i = (if i = 2048 then 1 else 0)"
    using i by (simp add: keyClick_def nth_list_update)
  show "map (\<lambda>i. keyClick ! (0 * keyHopSize + i) *
                  (0.5 * (1 - cos (2 * pi * real i / real (keyFftSize - 1))))) [0..<keyFftSize] ! i =
        (replicate 4096 0)[2048 := 0.5 * (1 + cos (pi / 4095))] ! i"
    using i c by (simp add: keyFftSize_def k nth_list_update)
qed

lemma keyClick_window_positive: "0 < 0.5 * (1 + cos (pi / 4095))"
proof -
  have "0 < cos (pi / 4095)" by (rule cos_gt_zero) (simp_all add: pi_gt_zero)
  then show ?thesis by simp
qed

lemma keyClick_binEnergy:
  "binEnergy 44100 (dft ((replicate 4096 0)[2048 := v])) 3 = \<bar>v\<bar>"
  by (simp add: binEnergy_def keyFftSize_def dft_impulse magnitude_impulse)

lemma keyClick_total: "0 < sum_list (calculateChromagram dft 44100 keyClick 4608)"
proof -
  let ?v = "0.5 * (1 + cos (pi / 4095))"
  let ?fd = "dft ((replicate 4096 0)[2048 := ?v])"
  have nf: "[0..<nat ((4608 - int keyFftSize) div int keyHopSize)] = [0]"
    by (simp add: keyFftSize_def keyHopSize_def)
  have "calculateChromagram dft 44100 keyClick 4608 =
      chromaFrame dft 44100 keyClick (replicate 12 0) 0"
    unfolding calculateChromagram_def Let_def nf by simp
  also have "\<dots> = foldl (chromaBin 44100 ?fd) (replicate 12 0) [1..<keyFftSize div 2]"
    unfolding chromaFrame_def Let_def keyClick_window ..
  finally have "calculateChromagram dft 44100 keyClick 4608 =
      foldl (chromaBin 44100 ?fd) (replicate 12 0) [1..<keyFftSize div 2]" .
  moreover have "chroma_ok (replicate 12 0)" by (simp add: chroma_ok_def)
  ultimately have "sum_list (calculateChromagram dft 44100 keyClick 4608) =
      (\<Sum>bin\<leftarrow>[1..<keyFftSize div 2]. binEnergy 44100 ?fd bin)"
    by (simp add: sum_list_foldl_chromaBin sum_list_replicate)
  moreover have "binEnergy 44100 ?fd 3 \<le> (\<Sum>bin\<leftarrow>[1..<keyFftSize div 2]. binEnergy 44100 ?fd bin)"
    by (rule member_le_sum_list_nonneg) (simp_all add: binEnergy_nonneg keyFftSize_def)
  moreover have "0 < binEnergy 44100 ?fd 3"
    using keyClick_window_positive by (simp only: keyClick_binEnergy)
  ultimately show ?thesis by linarith
qed

section \<open>The normalised chromagram\<close>

text \<open>
  C6. After the normalisation step of \<open>detectKey\<close>: whenever the total of the accumulated
  chromagram is positive, the 12 bin values sum to 1 (so within \<open>1e-6\<close> of 1); when the
  total is zero the chromagram is and remains all zero; every bin value is non-negative in
  both cases.
\<close>

theorem normalized_chromagram:
  assumes "4096 \<le> numSamples"
    and "chromagram = calculateChromagram fft sr audioData numSamples"
    and "normalized = normalizeChromagram chromagram"
  shows "length normalized = 12 \<and> (\<forall>v\<in>set normalized. 0 \<le> v) \<and>
         (0 < sum_list chromagram \<longrightarrow>
            sum_list normalized = 1 \<and> \<bar>sum_list normalized - 1\<bar> \<le> 1 / 10 ^ 6) \<and>
         (sum_list chromagram = 0 \<longrightarrow>
            chromagram = replicate 12 0 \<and> normalized = replicate 12 0)"
proof -
  have ok: "length chromagram = 12" "\<forall>v\<in>set chromagram. 0 \<le> v"
    using calculateChromagram_ok [of fft sr audioData numSamples] assms(2)
    by (simp_all add: chroma_ok_def)
  have n: "normalized =
      (if 0 < sum_list chromagram then map (\<lambda>val. val / sum_list chromagram) chromagram
       else chromagram)"
    using assms(3) by (simp add: normalizeChromagram_eq)
  have "length normalized = 12" using ok n by simp
  moreover have "\<forall>v\<in>set normalized. 0 \<le> v"
    using ok n by auto
  moreover have "sum_list normalized = 1" if "0 < sum_list chromagram"
    using that n by (simp add: sum_list_divide)
  moreover have "chromagram = replicate 12 0 \<and> normalized = replicate 12 0"
    if "sum_list chromagram = 0"
    using nonneg_sum_zero_all_zero [OF ok(2) that] ok(1) n that by simp
  ultimately show ?thesis by simp
qed

theorem normalized_chromagram_witness:
  "(4096::int) \<le> 4608 \<and> 0 < sum_list (calculateChromagram dft 44100 keyClick 4608) \<and>
   sum_list (normalizeChromagram (calculateChromagram dft 44100 keyClick 4608)) = 1 \<and>
   (4096::int) \<le> 8192 \<and> sum_list (calculateChromagram dft 44100 (replicate 8192 0) 8192) = 0 \<and>
   normalizeChromagram (calculateChromagram dft 44100 (replicate 8192 0) 8192) = replicate 12 0"
proof -
  have le: "(4096::int) \<le> 4608" "(4096::int) \<le> 8192" by simp_all
  have z: "calculateChromagram dft 44100 (replicate 8192 0) 8192 = replicate 12 0"
    by (rule silence_chromagram) simp
  have sz: "sum_list (calculateChromagram dft 44100 (replicate 8192 0) 8192) = 0"
    unfolding z by (simp add: sum_list_replicate)
  have a: "sum_list (normalizeChromagram (calculateChromagram dft 44100 keyClick 4608)) = 1"
    using normalized_chromagram [OF le(1) refl refl, of dft 44100 keyClick] keyClick_total
    by blast
  have b: "normalizeChromagram (calculateChromagram dft 44100 (replicate 8192 0) 8192) =
      replicate 12 0"
    using normalized_chromagram [OF le(2) refl refl, of dft 44100 "replicate 8192 0"] sz
    by blast
  show ?thesis using le keyClick_total a sz b by blast
qed

section \<open>The key of digital silence\<close>

text \<open>
  C10. For every buffer with at least 4096 samples whose accumulated chromagram is all zeros,
  all 24 candidate correlations are 0 (the guard on the standard deviation returns 0) and
  \<open>detectKey\<close> returns exactly \<open>("C", "major", 0.5)\<close>: the confidence is 0.5, not the 0 of
  a short buffer.
\<close>

theorem silent_chromagram_key:
  "4096 \<le> numSamples \<Longrightarrow>
   calculateChromagram fft (keySampleRate d) audioData numSamples = replicate 12 0 \<Longrightarrow>
   detectKey fft d audioData numSamples = (''C'', ''major'', 0.5) \<and>
   (\<forall>root' < 12. correlation (replicate 12 0) (rotateProfile majorProfile root') = 0 \<and>
                  correlation (replicate 12 0) (rotateProfile minorProfile root') = 0)"
  by (simp add: detectKey_def keyFftSize_def normalizeChromagram_zero findBestKey_zero
      correlation_zero_left)

theorem silent_chromagram_key_witness:
  "(4096::int) \<le> 8192 \<and>
   calculateChromagram dft (keySampleRate KeyDetector_default) (replicate 8192 0) 8192 =
     replicate 12 0 \<and>
   detectKey dft KeyDetector_default (replicate 8192 0) 8192 = (''C'', ''major'', 0.5)"
  using silent_chromagram_key [of 8192 dft KeyDetector_default "replicate 8192 0"]
  by (simp add: silence_chromagram)

end
